theory Spec2Isabelle
  imports Main
begin

section \<open>Data model\<close>

text \<open>
  The records of \<^verbatim>\<open>types/index.ts\<close> as the services use them. Every field of
  \<^verbatim>\<open>SearchOptions\<close> is optional in the source; a missing field is \<open>None\<close>.
  \<^verbatim>\<open>limit\<close> is a JavaScript number and is kept as an \<open>int\<close> (it may be negative);
  timeouts are milliseconds.
\<close>

record SearchResult =
  title :: string
  link :: string
  snippet :: string

record SearchResponse =
  query :: string
  results :: "SearchResult list"

record SearchOptions =
  limit :: "int option"
  timeout :: "nat option"
  stateFile :: "string option"
  noSaveState :: "bool option"
  debug :: "bool option"

datatype colorScheme = dark | light
datatype reducedMotion = reduce | no_preference
datatype forcedColors = active | none

record FingerprintConfig =
  deviceName :: string
  fp_locale :: string
  timezoneId :: string
  fp_colorScheme :: colorScheme
  fp_reducedMotion :: reducedMotion
  fp_forcedColors :: forcedColors

record SavedState =
  fingerprint :: "FingerprintConfig option"
  googleDomain :: "string option"

text \<open>
  What \<^verbatim>\<open>JSON.parse\<close> may yield for the text of a sidecar file. \<^verbatim>\<open>loadSavedState\<close>
  assigns the value to \<^verbatim>\<open>savedState\<close> without inspecting it, so the code that reads
  \<^verbatim>\<open>savedState.fingerprint\<close> later may meet \<^verbatim>\<open>null\<close> (every property read throws), a
  number, string or boolean (a property read yields \<^verbatim>\<open>undefined\<close>, a property write
  throws in the strict mode of a module), or an object or array, of which only the two
  fields of \<^verbatim>\<open>SavedState\<close> are read. A primitive carries the description V8 prints for
  it in the error message, such as \<^verbatim>\<open>number '5'\<close>.
\<close>

datatype json = JNull | JPrimitive string | JObject SavedState

section \<open>JavaScript string and array primitives\<close>

text \<open>\<^verbatim>\<open>s.startsWith(p)\<close> and \<^verbatim>\<open>s.includes(p)\<close>.\<close>

definition startsWith :: "string \<Rightarrow> string \<Rightarrow> bool" where
  "startsWith s p = (take (length p) s = p)"

fun str_includes :: "string \<Rightarrow> string \<Rightarrow> bool" where
  "str_includes [] p = (p = [])"
| "str_includes (c # cs) p = (startsWith (c # cs) p \<or> str_includes cs p)"

text \<open>
  \<^verbatim>\<open>s.replace(pat, rep)\<close> with a string pattern: only the first occurrence is
  replaced, and a string without the pattern is returned unchanged.
\<close>

fun replace :: "string \<Rightarrow> string \<Rightarrow> string \<Rightarrow> string" where
  "replace [] pat rep = (if pat = [] then rep else [])"
| "replace (c # cs) pat rep =
     (if startsWith (c # cs) pat then rep @ drop (length pat) (c # cs)
      else c # replace cs pat rep)"

text \<open>
  \<^verbatim>\<open>xs.slice(0, n)\<close>: a negative end counts from the end of the array
  (\<open>max (len + n) 0\<close>), a non-negative one is capped by the length.
\<close>

definition slice0 :: "int \<Rightarrow> 'a list \<Rightarrow> 'a list" where
  "slice0 n xs = (if n < 0 then take (nat (int (length xs) + n)) xs else take (nat n) xs)"

text \<open>\<^verbatim>\<open>x || ""\<close> for an optional string.\<close>

definition orEmpty :: "string option \<Rightarrow> string" where
  "orEmpty x = (case x of None \<Rightarrow> [] | Some s \<Rightarrow> s)"

text \<open>The template literal \<^verbatim>\<open>${index}\<close>: the decimal digits of an array index.\<close>

definition digit_char :: "nat \<Rightarrow> char" where
  "digit_char d = ''0123456789'' ! d"

fun decimal :: "nat \<Rightarrow> string" where
  "decimal n = (if n < 10 then [digit_char n] else decimal (n div 10) @ [digit_char (n mod 10)])"

declare decimal.simps [simp del]

section \<open>Result extraction\<close>

text \<open>
  What the page-side callbacks of \<^verbatim>\<open>page.$$eval\<close> read from the DOM. For an element
  matched by a container selector: the text of its first descendant matching a
  sub-selector (\<open>None\<close> when there is none) and the resolved \<^verbatim>\<open>href\<close> of its first
  anchor. For an anchor of the generic fallback: its \<^verbatim>\<open>href\<close> attribute, its text,
  its resolved \<^verbatim>\<open>href\<close> and the text of its parent.
\<close>

record element =
  el_text :: "string \<Rightarrow> string option"
  el_href :: "string option"

record anchor =
  a_attr :: "string option"
  a_text :: string
  a_href :: string
  a_parent_text :: "string option"

definition valid_item :: "SearchResult \<Rightarrow> bool" where
  "valid_item item = (title item \<noteq> [] \<and> link item \<noteq> [])"

definition container_item :: "string \<Rightarrow> string \<Rightarrow> element \<Rightarrow> SearchResult" where
  "container_item titleSelector snippetSelector el =
     \<lparr>title = orEmpty (el_text el titleSelector),
      link = orEmpty (el_href el),
      snippet = orEmpty (el_text el snippetSelector)\<rparr>"

definition eval_containers :: "int \<Rightarrow> string \<Rightarrow> string \<Rightarrow> element list \<Rightarrow> SearchResult list" where
  "eval_containers maxResults titleSelector snippetSelector elements =
     filter valid_item (map (container_item titleSelector snippetSelector) (slice0 maxResults elements))"

definition outbound :: "anchor \<Rightarrow> bool" where
  "outbound el = (let href = orEmpty (a_attr el)
                  in startsWith href ''http'' \<and> \<not> str_includes href ''google.com/'')"

definition anchor_item :: "anchor \<Rightarrow> SearchResult" where
  "anchor_item el =
     \<lparr>title = a_text el,
      link = a_href el,
      snippet = (case a_parent_text el of None \<Rightarrow> [] | Some t \<Rightarrow> take 200 t)\<rparr>"

definition eval_anchors :: "int \<Rightarrow> anchor list \<Rightarrow> SearchResult list" where
  "eval_anchors maxResults elements =
     filter valid_item (map anchor_item (slice0 maxResults (filter outbound elements)))"

record selector =
  container :: string
  title_sel :: string
  snippet_sel :: string

definition resultSelectors :: "selector list" where
  "resultSelectors =
     [\<lparr>container = ''#search .g'', title_sel = ''h3'', snippet_sel = ''.VwiC3b''\<rparr>,
      \<lparr>container = ''.g'', title_sel = ''h3'', snippet_sel = ''.VwiC3b''\<rparr>]"

section \<open>The browser engine and the file system as an environment\<close>

text \<open>
  Every awaited call into Playwright or \<^verbatim>\<open>fs\<close> is an operation whose outcome the
  environment decides. A query execution is a value of type \<open>'a io\<close>: how it ended,
  and the trace of the operations it performed, in program order. \<open>Pending\<close> is a
  promise that never settles. Errors are kept as the text \<^verbatim>\<open>String(error)\<close> yields.
  The trace also records each entry into \<^verbatim>\<open>performSearch\<close>, the warning of
  \<^verbatim>\<open>loadSavedState\<close>, and the files \<^verbatim>\<open>loadSavedState\<close> probes with
  \<^verbatim>\<open>fs.existsSync\<close> and reads with \<^verbatim>\<open>fs.readFileSync\<close>. \<open>NewContext (Some f)\<close> is
  \<^verbatim>\<open>browser.newContext\<close> with \<^verbatim>\<open>storageState: f\<close>, which makes Playwright read the
  snapshot file \<open>f\<close>.
\<close>

datatype place = AtEscalation | AtReturn | AtCatch

datatype op =
    LaunchBrowser bool nat
  | NewContext "string option"
  | NewPage
  | Goto
  | ClosePage
  | CloseContext
  | CloseBrowser place
  | WaitChallenge nat
  | QuerySelector string
  | Click
  | TypeQuery string
  | Pause
  | PressEnter
  | WaitLoad
  | WaitLoadSolved
  | WaitResultUrl
  | WaitSelector string
  | EvalAll string
  | Mkdir
  | StorageState string
  | WriteFile string

datatype event = Enter nat bool | Call nat op | Warn string | Exists string | Read string

datatype 'a outcome = Returned 'a | Raised string | Pending

type_synonym 'a io = "'a outcome \<times> event list"

datatype fentry = Readable string | Unreadable

text \<open>
  One \<open>session\<close> describes what the environment does during one invocation of
  \<^verbatim>\<open>performSearch\<close>: which operations reject (\<open>fails\<close>), the files on disk and the
  result of \<^verbatim>\<open>JSON.parse\<close> on a text (\<open>None\<close> when it throws), whether the state
  directory exists, the URLs the page reports after the home navigation and after the
  query is submitted, the URL of the navigation response (\<open>None\<close> for a null response),
  after how many milliseconds the page leaves the challenge (\<open>None\<close> for never), which
  selectors \<^verbatim>\<open>page.$\<close> finds, and the elements the page-side callbacks see; further
  which names the device registry of Playwright knows, the index the random choice
  among the four default devices falls on, and the configuration of the host machine
  (locale, time zone, colour scheme by the hour of the day).
\<close>

record session =
  fails :: "op \<Rightarrow> string option"
  files :: "string \<Rightarrow> fentry option"
  parse :: "string \<Rightarrow> json option"
  dir_exists :: bool
  home_url :: string
  resp_url :: "string option"
  solve1 :: "nat option"
  found :: "string \<Rightarrow> bool"
  search_url :: string
  solve2 :: "nat option"
  query_all :: "string \<Rightarrow> element list"
  anchors :: "anchor list"
  known_device :: "string \<Rightarrow> bool"
  device_choice :: nat
  host_config :: FingerprintConfig

definition ret :: "'a \<Rightarrow> 'a io" where
  "ret x = (Returned x, [])"

definition throw :: "string \<Rightarrow> 'a io" where
  "throw e = (Raised e, [])"

definition andThen :: "'a io \<Rightarrow> ('a \<Rightarrow> 'b io) \<Rightarrow> 'b io" where
  "andThen m f =
     (case fst m of
        Returned x \<Rightarrow> (fst (f x), snd m @ snd (f x))
      | Raised e \<Rightarrow> (Raised e, snd m)
      | Pending \<Rightarrow> (Pending, snd m))"

definition catch :: "'a io \<Rightarrow> (string \<Rightarrow> 'a io) \<Rightarrow> 'a io" where
  "catch m h =
     (case fst m of
        Raised e \<Rightarrow> (fst (h e), snd m @ snd (h e))
      | _ \<Rightarrow> m)"

definition runIf :: "bool \<Rightarrow> unit io \<Rightarrow> unit io" where
  "runIf b m = (if b then m else ret ())"

definition call :: "nat \<Rightarrow> session \<Rightarrow> op \<Rightarrow> unit io" where
  "call n s oper =
     ((case fails s oper of None \<Rightarrow> Returned () | Some e \<Rightarrow> Raised e), [Call n oper])"

text \<open>
  A wait for the page to leave the challenge, with Playwright's convention that a
  timeout of 0 disables the timeout.
\<close>

definition timeoutError :: string where
  "timeoutError = ''TimeoutError: Timeout exceeded''"

definition waitChallenge :: "nat \<Rightarrow> nat \<Rightarrow> nat option \<Rightarrow> unit io" where
  "waitChallenge n t solved =
     ((case solved of
         None \<Rightarrow> if t = 0 then Pending else Raised timeoutError
       | Some ms \<Rightarrow> if t = 0 \<or> ms \<le> t then Returned () else Raised timeoutError),
      [Call n (WaitChallenge t)])"

section \<open>Session state store (utils/browser.ts)\<close>

definition fingerprintFileOf :: "string \<Rightarrow> string" where
  "fingerprintFileOf stateFile' = replace stateFile' ''.json'' ''-fingerprint.json''"

definition existsSync :: "(string \<Rightarrow> fentry option) \<Rightarrow> string \<Rightarrow> bool" where
  "existsSync fs p = (fs p \<noteq> None)"

definition emptyState :: SavedState where
  "emptyState = \<lparr>fingerprint = None, googleDomain = None\<rparr>"

definition cannotLoad :: event where
  "cannotLoad = Warn ''[Browser] Cannot load fingerprint file''"

text \<open>
  \<^verbatim>\<open>storageState && fs.existsSync(fingerprintFile)\<close> probes the sidecar only when the
  snapshot reference is truthy, that is, present and not the empty string.
\<close>

definition loadSavedState :: "session \<Rightarrow> string \<Rightarrow> (string option \<times> json) io" where
  "loadSavedState s stateFile' =
     (let fingerprintFile = fingerprintFileOf stateFile';
          storageState = (if existsSync (files s) stateFile' then Some stateFile' else None)
      in if (case storageState of None \<Rightarrow> False | Some p \<Rightarrow> p \<noteq> [])
         then
           if existsSync (files s) fingerprintFile
           then (case files s fingerprintFile of
                   Some (Readable text) \<Rightarrow>
                     (case parse s text of
                        Some savedState \<Rightarrow>
                          (Returned (storageState, savedState),
                           [Exists stateFile', Exists fingerprintFile, Read fingerprintFile])
                      | None \<Rightarrow>
                          (Returned (storageState, JObject emptyState),
                           [Exists stateFile', Exists fingerprintFile, Read fingerprintFile, cannotLoad]))
                 | _ \<Rightarrow>
                     (Returned (storageState, JObject emptyState),
                      [Exists stateFile', Exists fingerprintFile, Read fingerprintFile, cannotLoad]))
           else (Returned (storageState, JObject emptyState), [Exists stateFile', Exists fingerprintFile])
         else (Returned (storageState, JObject emptyState), [Exists stateFile']))"

text \<open>
  The two functions that read the loaded state before a context is created. Both are
  synchronous, touch no file and call nothing in the browser; on a state that is not an
  object they throw a \<^verbatim>\<open>TypeError\<close>. \<^verbatim>\<open>getDeviceName\<close> is the closure of that name in
  services/googleSearch.ts; \<^verbatim>\<open>resolveContextOptions\<close> is the three-argument function
  it is written against. Of the context options only the device whose descriptor is
  the base and the fingerprint laid over it are kept; the fingerprint is also what
  \<^verbatim>\<open>savedState.fingerprint\<close> holds after the call.
\<close>

definition readOfNull :: string where
  "readOfNull = ''TypeError: Cannot read properties of null (reading 'fingerprint')''"

definition cannotCreate :: "string \<Rightarrow> string" where
  "cannotCreate d = ''TypeError: Cannot create property 'fingerprint' on '' @ d"

definition deviceList :: "string list" where
  "deviceList = [''Desktop Chrome'', ''Desktop Edge'', ''Desktop Firefox'', ''Desktop Safari'']"

definition getHostMachineConfig :: "session \<Rightarrow> FingerprintConfig" where
  "getHostMachineConfig s = (host_config s)\<lparr>deviceName := ''Desktop Chrome''\<rparr>"

definition getDeviceName :: "session \<Rightarrow> json \<Rightarrow> string io" where
  "getDeviceName s savedState =
     (case savedState of
        JNull \<Rightarrow> throw readOfNull
      | JPrimitive d \<Rightarrow> ret (deviceList ! (device_choice s mod length deviceList))
      | JObject st \<Rightarrow>
          (case fingerprint st of
             Some fp \<Rightarrow>
               if deviceName fp \<noteq> [] \<and> known_device s (deviceName fp) then ret (deviceName fp)
               else ret (deviceList ! (device_choice s mod length deviceList))
           | None \<Rightarrow> ret (deviceList ! (device_choice s mod length deviceList))))"

definition resolveContextOptions :: "session \<Rightarrow> json \<Rightarrow> string \<Rightarrow> (string \<times> FingerprintConfig) io" where
  "resolveContextOptions s savedState deviceName' =
     (case savedState of
        JNull \<Rightarrow> throw readOfNull
      | JPrimitive d \<Rightarrow> throw (cannotCreate d)
      | JObject st \<Rightarrow>
          (case fingerprint st of
             Some fp \<Rightarrow> ret (deviceName', fp)
           | None \<Rightarrow>
               (let hostConfig = getHostMachineConfig s
                in ret (deviceName hostConfig, hostConfig))))"

definition saveBrowserState :: "nat \<Rightarrow> session \<Rightarrow> string \<Rightarrow> unit io" where
  "saveBrowserState n s stateFile' =
     andThen (runIf (\<not> dir_exists s) (call n s Mkdir)) (\<lambda>_.
     andThen (call n s (StorageState stateFile')) (\<lambda>_.
     call n s (WriteFile (fingerprintFileOf stateFile'))))"

section \<open>One query: services/googleSearch.ts\<close>

text \<open>
  The variables \<^verbatim>\<open>performSearch\<close> closes over: the query, the options with their
  defaults applied, whether the caller supplied a browser, the snapshot reference and
  the state \<^verbatim>\<open>loadSavedState\<close> returned, and the environment of each invocation. The
  state is an object shared by all invocations; the code only ever fills in its
  \<^verbatim>\<open>fingerprint\<close> and \<^verbatim>\<open>googleDomain\<close>, which changes neither what throws nor which
  branch is taken, so the scope keeps the value as loaded. The choice of the mirror
  domain and the typing delays do not influence the control flow and are left out.
\<close>

record scope =
  sc_query :: string
  sc_limit :: int
  sc_timeout :: nat
  sc_stateFile :: string
  sc_noSaveState :: bool
  sc_debug :: bool
  sc_existingBrowser :: bool
  sc_storageState :: "string option"
  sc_savedState :: json
  sc_sessions :: "nat \<Rightarrow> session"

datatype verdict = Restart | Answer SearchResponse

definition captchaPatterns :: "string list" where
  "captchaPatterns =
     [''google.com/sorry/index'', ''google.com/sorry'', ''recaptcha'', ''captcha'', ''unusual traffic'']"

definition isBlocked :: "session \<Rightarrow> string \<Rightarrow> bool" where
  "isBlocked s url =
     list_ex (\<lambda>p. str_includes url p
                 \<or> (case resp_url s of None \<Rightarrow> False | Some r \<Rightarrow> str_includes r p))
       captchaPatterns"

definition searchInputSelectors :: "string list" where
  "searchInputSelectors =
     [''textarea[name='q']'', ''input[name='q']'', ''textarea[title='Search']'', ''textarea'']"

definition searchResultSelectors :: "string list" where
  "searchResultSelectors = [''#search'', ''#rso'', ''.g'', ''div[role='main']'']"

definition anchorSelector :: string where
  "anchorSelector = ''a[href^='http']''"

definition searchFailed :: "string \<Rightarrow> string \<Rightarrow> SearchResponse" where
  "searchFailed q error =
     \<lparr>query = q, results = [\<lparr>title = ''Search failed'', link = [], snippet = error\<rparr>]\<rparr>"

text \<open>
  The headless branch of the challenge handling: the page, the context and (unless the
  caller supplied it) the browser are closed, and the caller then re-enters
  \<^verbatim>\<open>performSearch\<close> in visible mode; \<open>Restart\<close> stands for that re-entry.
\<close>

definition discardSession :: "nat \<Rightarrow> session \<Rightarrow> bool \<Rightarrow> unit io" where
  "discardSession n s browserWasProvided =
     andThen (call n s ClosePage) (\<lambda>_.
     andThen (call n s CloseContext) (\<lambda>_.
     runIf (\<not> browserWasProvided) (call n s (CloseBrowser AtEscalation))))"

fun findInput :: "nat \<Rightarrow> session \<Rightarrow> string list \<Rightarrow> bool io" where
  "findInput n s [] = ret False"
| "findInput n s (sel # rest) =
     andThen (call n s (QuerySelector sel)) (\<lambda>_.
       if found s sel then ret True else findInput n s rest)"

fun waitResults :: "nat \<Rightarrow> session \<Rightarrow> string list \<Rightarrow> bool io" where
  "waitResults n s [] = ret False"
| "waitResults n s (sel # rest) =
     catch (andThen (call n s (WaitSelector sel)) (\<lambda>_. ret True))
           (\<lambda>e. waitResults n s rest)"

fun trySelectors :: "nat \<Rightarrow> session \<Rightarrow> int \<Rightarrow> selector list \<Rightarrow> SearchResult list
                     \<Rightarrow> SearchResult list io" where
  "trySelectors n s maxResults [] found_so_far = ret found_so_far"
| "trySelectors n s maxResults (sel # rest) found_so_far =
     andThen (call n s (EvalAll (container sel))) (\<lambda>_.
       let rs = eval_containers maxResults (title_sel sel) (snippet_sel sel)
                  (query_all s (container sel))
       in if length rs > 0 then ret rs else trySelectors n s maxResults rest rs)"

definition extractResults :: "nat \<Rightarrow> session \<Rightarrow> int \<Rightarrow> SearchResult list io" where
  "extractResults n s maxResults =
     andThen (trySelectors n s maxResults resultSelectors []) (\<lambda>rs.
       if length rs = 0
       then andThen (call n s (EvalAll anchorSelector)) (\<lambda>_.
              ret (eval_anchors maxResults (anchors s)))
       else ret rs)"

definition finish :: "scope \<Rightarrow> nat \<Rightarrow> session \<Rightarrow> bool \<Rightarrow> SearchResult list \<Rightarrow> verdict io" where
  "finish c n s browserWasProvided rs =
     andThen (runIf (\<not> sc_noSaveState c) (saveBrowserState n s (sc_stateFile c))) (\<lambda>_.
     andThen (runIf (\<not> browserWasProvided \<and> \<not> sc_debug c) (call n s (CloseBrowser AtReturn))) (\<lambda>_.
     ret (Answer \<lparr>query = sc_query c, results = rs\<rparr>)))"

definition resultsPhase :: "scope \<Rightarrow> nat \<Rightarrow> session \<Rightarrow> bool \<Rightarrow> verdict io" where
  "resultsPhase c n s browserWasProvided =
     andThen (waitResults n s searchResultSelectors) (\<lambda>resultsFound.
     andThen (extractResults n s (sc_limit c)) (\<lambda>rs.
     finish c n s browserWasProvided rs))"

definition submitPhase :: "scope \<Rightarrow> nat \<Rightarrow> session \<Rightarrow> bool \<Rightarrow> bool \<Rightarrow> verdict io" where
  "submitPhase c n s headless browserWasProvided =
     andThen (findInput n s searchInputSelectors) (\<lambda>searchInput.
       if \<not> searchInput then throw ''Error: Could not find search box''
       else
         andThen (call n s Click) (\<lambda>_.
         andThen (call n s (TypeQuery (sc_query c))) (\<lambda>_.
         andThen (call n s Pause) (\<lambda>_.
         andThen (call n s PressEnter) (\<lambda>_.
         andThen (call n s WaitLoad) (\<lambda>_.
           if isBlocked s (search_url s) then
             if headless then andThen (discardSession n s browserWasProvided) (\<lambda>_. ret Restart)
             else
               andThen (waitChallenge n (sc_timeout c * 2) (solve2 s)) (\<lambda>_.
               andThen (call n s WaitLoadSolved) (\<lambda>_.
               resultsPhase c n s browserWasProvided))
           else resultsPhase c n s browserWasProvided))))))"

definition tryBlock :: "scope \<Rightarrow> nat \<Rightarrow> session \<Rightarrow> bool \<Rightarrow> bool \<Rightarrow> verdict io" where
  "tryBlock c n s headless browserWasProvided =
     andThen (call n s Goto) (\<lambda>_.
       if isBlocked s (home_url s) then
         if headless then andThen (discardSession n s browserWasProvided) (\<lambda>_. ret Restart)
         else
           andThen (waitChallenge n (sc_timeout c * 2) (solve1 s)) (\<lambda>_.
           submitPhase c n s headless browserWasProvided)
       else submitPhase c n s headless browserWasProvided)"

definition onError :: "scope \<Rightarrow> nat \<Rightarrow> session \<Rightarrow> bool \<Rightarrow> string \<Rightarrow> SearchResponse io" where
  "onError c n s browserWasProvided error =
     andThen (runIf (\<not> browserWasProvided \<and> \<not> sc_debug c) (call n s (CloseBrowser AtCatch))) (\<lambda>_.
     ret (searchFailed (sc_query c) error))"

text \<open>
  The part of \<^verbatim>\<open>performSearch\<close> before its \<^verbatim>\<open>try\<close> block (lines 58 to 72): the
  browser, the device name, the context options, the context and the page. A failure
  here is not caught.
\<close>

definition setup1 :: "scope \<Rightarrow> nat \<Rightarrow> bool \<Rightarrow> bool \<Rightarrow> unit io" where
  "setup1 c n headless forceNewBrowser =
     (let browserWasProvided = (sc_existingBrowser c \<and> \<not> forceNewBrowser);
          s = sc_sessions c n
      in andThen (Returned (), [Enter n headless]) (\<lambda>_.
         andThen (runIf (\<not> browserWasProvided)
                    (call n s (LaunchBrowser headless (sc_timeout c * 2)))) (\<lambda>_.
         andThen (getDeviceName s (sc_savedState c)) (\<lambda>deviceName'.
         andThen (resolveContextOptions s (sc_savedState c) deviceName') (\<lambda>contextOptions.
         andThen (call n s (NewContext (sc_storageState c))) (\<lambda>_.
         call n s NewPage))))))"

text \<open>
  One invocation of \<^verbatim>\<open>performSearch\<close> up to the point where it either has its
  response or hands over to a fresh invocation.
\<close>

definition attempt :: "scope \<Rightarrow> nat \<Rightarrow> bool \<Rightarrow> bool \<Rightarrow> verdict io" where
  "attempt c n headless forceNewBrowser =
     (let browserWasProvided = (sc_existingBrowser c \<and> \<not> forceNewBrowser);
          s = sc_sessions c n
      in andThen (setup1 c n headless forceNewBrowser) (\<lambda>_.
         catch (tryBlock c n s headless browserWasProvided)
               (\<lambda>error. andThen (onError c n s browserWasProvided error) (\<lambda>response.
                  ret (Answer response)))))"

subsection \<open>How a sequence of operations ends\<close>

lemma fst_ret [simp]: "fst (ret x) = Returned x"
  by (simp add: ret_def)

lemma snd_ret [simp]: "snd (ret x) = []"
  by (simp add: ret_def)

lemma fst_throw [simp]: "fst (throw e) = Raised e"
  by (simp add: throw_def)

lemma snd_throw [simp]: "snd (throw e) = []"
  by (simp add: throw_def)

lemma andThen_Returned:
  "fst (andThen m f) = Returned y \<longleftrightarrow> (\<exists>x. fst m = Returned x \<and> fst (f x) = Returned y)"
  by (cases "fst m") (simp_all add: andThen_def)


lemma andThen_Pending:
  "fst (andThen m f) = Pending \<longleftrightarrow>
     fst m = Pending \<or> (\<exists>x. fst m = Returned x \<and> fst (f x) = Pending)"
  by (cases "fst m") (auto simp: andThen_def)

lemma snd_andThen:
  "snd (andThen m f) = snd m @ (case fst m of Returned x \<Rightarrow> snd (f x) | _ \<Rightarrow> [])"
  by (cases "fst m") (simp_all add: andThen_def)

lemma catch_Returned:
  "fst (catch m h) = Returned y \<longleftrightarrow>
     fst m = Returned y \<or> (\<exists>e. fst m = Raised e \<and> fst (h e) = Returned y)"
  by (cases "fst m") (auto simp: catch_def)

lemma catch_Raised:
  "fst (catch m h) = Raised e' \<longleftrightarrow> (\<exists>e. fst m = Raised e \<and> fst (h e) = Raised e')"
  by (cases "fst m") (auto simp: catch_def)

lemma catch_Pending:
  "fst (catch m h) = Pending \<longleftrightarrow>
     fst m = Pending \<or> (\<exists>e. fst m = Raised e \<and> fst (h e) = Pending)"
  by (cases "fst m") (auto simp: catch_def)

lemma snd_catch:
  "snd (catch m h) = snd m @ (case fst m of Raised e \<Rightarrow> snd (h e) | _ \<Rightarrow> [])"
  by (cases "fst m") (simp_all add: catch_def)

lemma runIf_Returned [simp]: "fst (runIf b m) = Returned u \<longleftrightarrow> (b \<longrightarrow> fst m = Returned u)"
  by (simp add: runIf_def)

lemma finish_verdict:
  "fst (finish c n s p rs) = Returned v \<Longrightarrow> v = Answer \<lparr>query = sc_query c, results = rs\<rparr>"
  by (auto simp: finish_def andThen_Returned)

lemma resultsPhase_verdict: "fst (resultsPhase c n s p) = Returned v \<Longrightarrow> v \<noteq> Restart"
  by (auto simp: resultsPhase_def andThen_Returned dest!: finish_verdict)

lemma submitPhase_Restart: "fst (submitPhase c n s headless p) = Returned Restart \<Longrightarrow> headless"
  by (auto simp: submitPhase_def andThen_Returned split: if_splits dest: resultsPhase_verdict)

lemma tryBlock_Restart: "fst (tryBlock c n s headless p) = Returned Restart \<Longrightarrow> headless"
  by (auto simp: tryBlock_def andThen_Returned split: if_splits dest: submitPhase_Restart)

lemma attempt_Restart: "fst (attempt c n headless force) = Returned Restart \<Longrightarrow> headless"
  by (auto simp: attempt_def Let_def andThen_Returned catch_Returned dest: tryBlock_Restart)

subsection \<open>The recursion of performSearch\<close>

text \<open>
  \<^verbatim>\<open>return performSearch(false, browserWasProvided)\<close> is not awaited inside the
  \<^verbatim>\<open>try\<close> block, so whatever the fresh invocation does is the result as it is:
  a rejection of the inner call is not caught by the outer handler.
\<close>

function performSearch :: "scope \<Rightarrow> nat \<Rightarrow> bool \<Rightarrow> bool \<Rightarrow> SearchResponse io" where
  "performSearch c n headless forceNewBrowser =
     (let a = attempt c n headless forceNewBrowser
      in case fst a of
           Returned Restart \<Rightarrow>
             (let r = performSearch c (Suc n) False (sc_existingBrowser c \<and> \<not> forceNewBrowser)
              in (fst r, snd a @ snd r))
         | Returned (Answer response) \<Rightarrow> (Returned response, snd a)
         | Raised e \<Rightarrow> (Raised e, snd a)
         | Pending \<Rightarrow> (Pending, snd a))"
  by pat_completeness auto
termination
  by (relation "measure (\<lambda>(c, n, headless, force). if headless then 1 else 0)")
     (auto dest: attempt_Restart)

declare performSearch.simps [simp del]

text \<open>The destructuring of the options with its defaults.\<close>

definition scopeOf :: "string \<Rightarrow> SearchOptions \<Rightarrow> bool \<Rightarrow> (nat \<Rightarrow> session) \<Rightarrow> scope" where
  "scopeOf q options existingBrowser env =
     \<lparr>sc_query = q,
      sc_limit = (case limit options of None \<Rightarrow> 10 | Some l \<Rightarrow> l),
      sc_timeout = (case timeout options of None \<Rightarrow> 60000 | Some t \<Rightarrow> t),
      sc_stateFile = (case stateFile options of None \<Rightarrow> ''./browser-state.json'' | Some f \<Rightarrow> f),
      sc_noSaveState = (case noSaveState options of None \<Rightarrow> False | Some b \<Rightarrow> b),
      sc_debug = (debug options = Some True),
      sc_existingBrowser = existingBrowser,
      sc_storageState = None,
      sc_savedState = JObject emptyState,
      sc_sessions = env\<rparr>"

definition googleSearch :: "string \<Rightarrow> SearchOptions \<Rightarrow> bool \<Rightarrow> (nat \<Rightarrow> session) \<Rightarrow> SearchResponse io" where
  "googleSearch q options existingBrowser env =
     (let c = scopeOf q options existingBrowser env;
          useHeadless = (\<not> sc_debug c)
      in andThen (loadSavedState (env 0) (sc_stateFile c)) (\<lambda>(storageState, savedState).
           performSearch (c\<lparr>sc_storageState := storageState, sc_savedState := savedState\<rparr>)
             0 useHeadless False))"

section \<open>A batch of queries\<close>

text \<open>
  \<^verbatim>\<open>Promise.all\<close>: fulfilled with all values in input order when every promise is
  fulfilled, rejected when one is rejected, pending otherwise. With several
  rejections JavaScript reports the one that settles first; the model reports the one
  with the lowest index.
\<close>

fun promiseAll :: "'a outcome list \<Rightarrow> 'a list outcome" where
  "promiseAll [] = Returned []"
| "promiseAll (r # rs) =
     (case r of
        Raised e \<Rightarrow> Raised e
      | Returned x \<Rightarrow>
          (case promiseAll rs of Returned xs \<Rightarrow> Returned (x # xs) | Raised e \<Rightarrow> Raised e
           | Pending \<Rightarrow> Pending)
      | Pending \<Rightarrow> (case promiseAll rs of Raised e \<Rightarrow> Raised e | _ \<Rightarrow> Pending))"

text \<open>
  The queries of a batch run concurrently, each against its own sessions; the shared
  browser is launched before and closed after them. The result keeps the trace of the
  batch itself and one trace per query, since their interleaving is not fixed.
\<close>

record batch_env =
  shared :: session
  per_query :: "nat \<Rightarrow> nat \<Rightarrow> session"

record batch_result =
  b_outcome :: "SearchResponse list outcome"
  b_log :: "event list"
  b_query_logs :: "event list list"

definition noQueries :: string where
  "noQueries = ''Error: At least one search query is required''"

definition searchAll :: "SearchOptions \<Rightarrow> batch_env \<Rightarrow> SearchResponse io list \<Rightarrow> batch_result" where
  "searchAll options env searches =
     (let launch = call 0 (shared env)
                     (LaunchBrowser (debug options \<noteq> Some True)
                        ((case timeout options of None \<Rightarrow> 60000 | Some t \<Rightarrow> if t = 0 then 60000 else t) * 2))
      in case fst launch of
           Returned _ \<Rightarrow>
             (let all = promiseAll (map fst searches);
                  closing = (if all = Pending then (Pending, [])
                             else runIf (debug options \<noteq> Some True)
                                    (call 0 (shared env) (CloseBrowser AtReturn)))
              in \<lparr>b_outcome = (case fst closing of Returned _ \<Rightarrow> all | Raised e \<Rightarrow> Raised e
                               | Pending \<Rightarrow> Pending),
                  b_log = snd launch @ snd closing,
                  b_query_logs = map snd searches\<rparr>)
         | Raised e \<Rightarrow> \<lparr>b_outcome = Raised e, b_log = snd launch, b_query_logs = []\<rparr>
         | Pending \<Rightarrow> \<lparr>b_outcome = Pending, b_log = snd launch, b_query_logs = []\<rparr>)"

text \<open>The state file each query of a batch is given (services/googleSearch.ts).\<close>

definition queryStateFile :: "SearchOptions \<Rightarrow> nat \<Rightarrow> string" where
  "queryStateFile options index =
     (case stateFile options of
        None \<Rightarrow> ''./browser-state-'' @ decimal index @ ''.json''
      | Some f \<Rightarrow> if f = [] then ''./browser-state-'' @ decimal index @ ''.json''
                  else f @ ''-'' @ decimal index)"

definition multiGoogleSearch :: "string list option \<Rightarrow> SearchOptions \<Rightarrow> batch_env \<Rightarrow> batch_result" where
  "multiGoogleSearch queries options env =
     (case queries of
        None \<Rightarrow> \<lparr>b_outcome = Raised noQueries, b_log = [], b_query_logs = []\<rparr>
      | Some [] \<Rightarrow> \<lparr>b_outcome = Raised noQueries, b_log = [], b_query_logs = []\<rparr>
      | Some qs \<Rightarrow>
          searchAll options env
            (map (\<lambda>(index, q).
                    googleSearch q (options\<lparr>stateFile := Some (queryStateFile options index)\<rparr>)
                      True (per_query env index))
               (enumerate 0 qs)))"

section \<open>The second search implementation\<close>

text \<open>
  The repository holds a second \<^verbatim>\<open>googleSearch\<close>/\<^verbatim>\<open>multiGoogleSearch\<close> pair, written
  against the \<^verbatim>\<open>setupContext (browser, stateFile)\<close> of utils/browser.ts, which loads
  the saved state itself. It differs from the first in five places: the state is
  saved once before the \<^verbatim>\<open>try\<close> block, only the URL of the page is matched against a
  single challenge pattern, the visible-mode wait is \<^verbatim>\<open>waitForURL\<close> with
  \<^verbatim>\<open>timeout: 0\<close>, the re-entry into \<^verbatim>\<open>performSearch\<close> is awaited inside the
  \<^verbatim>\<open>try\<close> block, and the batch hands every query the same options.
\<close>

definition captchaPatterns2 :: "string list" where
  "captchaPatterns2 = [''google.com/sorry'']"

definition isBlocked2 :: "string \<Rightarrow> bool" where
  "isBlocked2 url = list_ex (\<lambda>pattern. str_includes url pattern) captchaPatterns2"

text \<open>
  \<^verbatim>\<open>handleBlocked\<close> yields whether the caller should continue. In the source its
  headless branch also awaits the fresh \<^verbatim>\<open>performSearch\<close> and hands its response to
  the caller, which returns it at once; here that call is made by
  \<open>performSearch2\<close> when \<open>handleBlocked\<close> yields \<open>False\<close>.
\<close>

definition handleBlocked :: "nat \<Rightarrow> session \<Rightarrow> bool \<Rightarrow> bool \<Rightarrow> string \<Rightarrow> nat option \<Rightarrow> bool io" where
  "handleBlocked n s headless browserWasProvided url solved =
     (if isBlocked2 url then
        if headless then andThen (discardSession n s browserWasProvided) (\<lambda>_. ret False)
        else andThen (waitChallenge n 0 solved) (\<lambda>_. ret True)
      else ret True)"

text \<open>
  The one-argument \<^verbatim>\<open>resolveContextOptions\<close> of utils/browser.ts, which
  \<^verbatim>\<open>setupContext\<close> calls on the state it has just loaded.
\<close>

definition resolveContextOptions2 :: "session \<Rightarrow> json \<Rightarrow> (string \<times> FingerprintConfig) io" where
  "resolveContextOptions2 s savedState =
     (case savedState of
        JNull \<Rightarrow> throw readOfNull
      | JPrimitive d \<Rightarrow> throw (cannotCreate d)
      | JObject st \<Rightarrow>
          (let machineConfig = getHostMachineConfig s
           in case fingerprint st of
                Some fp \<Rightarrow>
                  ret (if deviceName fp \<noteq> [] then deviceName fp else deviceName machineConfig, fp)
              | None \<Rightarrow> ret (deviceName machineConfig, machineConfig)))"

definition setupContext2 :: "nat \<Rightarrow> session \<Rightarrow> string \<Rightarrow> unit io" where
  "setupContext2 n s stateFile' =
     andThen (loadSavedState s stateFile') (\<lambda>(storageState, savedState).
     andThen (resolveContextOptions2 s savedState) (\<lambda>options.
     call n s (NewContext storageState)))"

definition tryBlock2 :: "scope \<Rightarrow> nat \<Rightarrow> session \<Rightarrow> bool \<Rightarrow> bool \<Rightarrow> verdict io" where
  "tryBlock2 c n s headless browserWasProvided =
     andThen (call n s Goto) (\<lambda>_.
     andThen (handleBlocked n s headless browserWasProvided (home_url s) (solve1 s)) (\<lambda>shouldContinue1.
       if \<not> shouldContinue1 then ret Restart
       else
         andThen (findInput n s searchInputSelectors) (\<lambda>searchInput.
           if \<not> searchInput then throw ''Error: Could not find search box''
           else
             andThen (call n s Click) (\<lambda>_.
             andThen (call n s (TypeQuery (sc_query c))) (\<lambda>_.
             andThen (call n s Pause) (\<lambda>_.
             andThen (call n s PressEnter) (\<lambda>_.
             andThen (call n s WaitResultUrl) (\<lambda>_.
             andThen (handleBlocked n s headless browserWasProvided (search_url s) (solve2 s))
               (\<lambda>shouldContinue2.
                 if \<not> shouldContinue2 then ret Restart
                 else resultsPhase c n s browserWasProvided)))))))))"

definition setup2 :: "scope \<Rightarrow> nat \<Rightarrow> bool \<Rightarrow> bool \<Rightarrow> unit io" where
  "setup2 c n headless forceNewBrowser =
     (let browserWasProvided = (sc_existingBrowser c \<and> \<not> forceNewBrowser);
          s = sc_sessions c n
      in andThen (Returned (), [Enter n headless]) (\<lambda>_.
         andThen (runIf (\<not> browserWasProvided)
                    (call n s (LaunchBrowser headless (sc_timeout c * 2)))) (\<lambda>_.
         andThen (setupContext2 n s (sc_stateFile c)) (\<lambda>_.
         andThen (call n s NewPage) (\<lambda>_.
         runIf (\<not> sc_noSaveState c) (saveBrowserState n s (sc_stateFile c)))))))"

lemma handleBlocked_False:
  "fst (handleBlocked n s headless p url solved) = Returned False \<Longrightarrow> headless"
  by (auto simp: handleBlocked_def andThen_Returned split: if_splits)

lemma tryBlock2_Restart: "fst (tryBlock2 c n s headless p) = Returned Restart \<Longrightarrow> headless"
  by (auto simp: tryBlock2_def andThen_Returned split: if_splits
           dest: resultsPhase_verdict handleBlocked_False)

function performSearch2 :: "scope \<Rightarrow> nat \<Rightarrow> bool \<Rightarrow> bool \<Rightarrow> SearchResponse io" where
  "performSearch2 c n headless forceNewBrowser =
     (let browserWasProvided = (sc_existingBrowser c \<and> \<not> forceNewBrowser);
          s = sc_sessions c n;
          t = tryBlock2 c n s headless browserWasProvided;
          body = (case fst t of
                    Returned Restart \<Rightarrow>
                      (let r = performSearch2 c (Suc n) False browserWasProvided
                       in (fst r, snd t @ snd r))
                  | Returned (Answer response) \<Rightarrow> (Returned response, snd t)
                  | Raised e \<Rightarrow> (Raised e, snd t)
                  | Pending \<Rightarrow> (Pending, snd t))
      in andThen (setup2 c n headless forceNewBrowser) (\<lambda>_.
           catch body (onError c n s browserWasProvided)))"
  by pat_completeness auto
termination
  by (relation "measure (\<lambda>(c, n, headless, force). if headless then 1 else 0)")
     (auto dest: tryBlock2_Restart)

declare performSearch2.simps [simp del]

definition googleSearch2 :: "string \<Rightarrow> SearchOptions \<Rightarrow> bool \<Rightarrow> (nat \<Rightarrow> session) \<Rightarrow> SearchResponse io" where
  "googleSearch2 q options existingBrowser env =
     (let c = scopeOf q options existingBrowser env;
          useHeadless = (\<not> sc_debug c)
      in performSearch2 c 0 useHeadless False)"

definition multiGoogleSearch2 :: "string list option \<Rightarrow> SearchOptions \<Rightarrow> batch_env \<Rightarrow> batch_result" where
  "multiGoogleSearch2 queries options env =
     (case queries of
        None \<Rightarrow> \<lparr>b_outcome = Raised noQueries, b_log = [], b_query_logs = []\<rparr>
      | Some [] \<Rightarrow> \<lparr>b_outcome = Raised noQueries, b_log = [], b_query_logs = []\<rparr>
      | Some qs \<Rightarrow>
          searchAll options env
            (map (\<lambda>(index, q). googleSearch2 q options True (per_query env index))
               (enumerate 0 qs)))"

lemma length_slice0: "0 \<le> n \<Longrightarrow> int (length (slice0 n xs)) \<le> n"
  by (simp add: slice0_def)

section \<open>Basic facts about the model\<close>

definition isObject :: "json \<Rightarrow> bool" where
  "isObject j = (case j of JObject st \<Rightarrow> True | _ \<Rightarrow> False)"

lemma isObject_simps [simp]:
  "isObject (JObject st)" "\<not> isObject JNull" "\<not> isObject (JPrimitive d)"
  by (simp_all add: isObject_def)

lemma snd_getDeviceName [simp]: "snd (getDeviceName s j) = []"
  by (simp add: getDeviceName_def split: json.splits option.splits)

lemma snd_resolveContextOptions [simp]: "snd (resolveContextOptions s j d) = []"
  by (simp add: resolveContextOptions_def Let_def split: json.splits option.splits)

lemma snd_resolveContextOptions2 [simp]: "snd (resolveContextOptions2 s j) = []"
  by (simp add: resolveContextOptions2_def Let_def split: json.splits option.splits)

lemma getDeviceName_object: "isObject j \<Longrightarrow> \<exists>d. getDeviceName s j = ret d"
  by (cases j) (auto simp: getDeviceName_def split: option.splits)

lemma resolveContextOptions_object: "isObject j \<Longrightarrow> \<exists>opts. resolveContextOptions s j d = ret opts"
  by (cases j) (auto simp: resolveContextOptions_def Let_def split: option.splits)

lemma resolveContextOptions2_object: "isObject j \<Longrightarrow> \<exists>opts. resolveContextOptions2 s j = ret opts"
  by (cases j) (auto simp: resolveContextOptions2_def Let_def split: option.splits)

lemma andThen_ret [simp]: "andThen (ret x) f = f x"
  by (simp add: andThen_def ret_def)

lemma andThen_throw [simp]: "andThen (throw e) f = throw e"
  by (simp add: andThen_def throw_def)

lemma andThen_assoc: "andThen (andThen m f) g = andThen m (\<lambda>x. andThen (f x) g)"
proof (cases "fst m")
  case (Returned x)
  then show ?thesis
    by (cases "fst (f x)") (simp_all add: andThen_def)
qed (simp_all add: andThen_def)

text \<open>
  What the two readers of the loaded state amount to: nothing for an object, a
  \<^verbatim>\<open>TypeError\<close> otherwise.
\<close>

definition stateError :: "json \<Rightarrow> string option" where
  "stateError j = (case j of JNull \<Rightarrow> Some readOfNull | JPrimitive d \<Rightarrow> Some (cannotCreate d)
                   | JObject st \<Rightarrow> None)"

lemma stateError_None: "stateError j = None \<longleftrightarrow> isObject j"
  by (cases j) (simp_all add: stateError_def)

lemma resolve_steps:
  "andThen (getDeviceName s j) (\<lambda>d. andThen (resolveContextOptions s j d) (\<lambda>opts. m))
   = (case stateError j of None \<Rightarrow> m | Some e \<Rightarrow> throw e)"
proof (cases j)
  case JNull
  then show ?thesis by (simp add: getDeviceName_def stateError_def)
next
  case (JPrimitive d)
  then show ?thesis
    by (simp add: getDeviceName_def resolveContextOptions_def stateError_def)
next
  case (JObject st)
  then have o: "isObject j" by simp
  from getDeviceName_object [OF o] obtain d where d: "getDeviceName s j = ret d" ..
  from resolveContextOptions_object [OF o] obtain opts where "resolveContextOptions s j d = ret opts" ..
  with d JObject show ?thesis by (simp add: stateError_def)
qed

lemma resolve2_steps:
  "andThen (resolveContextOptions2 s j) (\<lambda>opts. m)
   = (case stateError j of None \<Rightarrow> m | Some e \<Rightarrow> throw e)"
proof (cases j)
  case JNull
  then show ?thesis by (simp add: resolveContextOptions2_def stateError_def)
next
  case (JPrimitive d)
  then show ?thesis by (simp add: resolveContextOptions2_def stateError_def)
next
  case (JObject st)
  then have o: "isObject j" by simp
  from resolveContextOptions2_object [OF o] obtain opts where "resolveContextOptions2 s j = ret opts" ..
  with JObject show ?thesis by (simp add: stateError_def)
qed

lemma setup1_steps:
  "setup1 c n h f
   = andThen (Returned (), [Enter n h]) (\<lambda>_.
     andThen (runIf (\<not> (sc_existingBrowser c \<and> \<not> f))
                (call n (sc_sessions c n) (LaunchBrowser h (sc_timeout c * 2)))) (\<lambda>_.
       case stateError (sc_savedState c) of
         None \<Rightarrow> andThen (call n (sc_sessions c n) (NewContext (sc_storageState c))) (\<lambda>_.
                   call n (sc_sessions c n) NewPage)
       | Some e \<Rightarrow> throw e))"
  by (simp add: setup1_def Let_def resolve_steps)

lemma attempt_steps:
  "attempt c n h f
   = andThen (Returned (), [Enter n h]) (\<lambda>_.
     andThen (runIf (\<not> (sc_existingBrowser c \<and> \<not> f))
                (call n (sc_sessions c n) (LaunchBrowser h (sc_timeout c * 2)))) (\<lambda>_.
     andThen (case stateError (sc_savedState c) of
                None \<Rightarrow> andThen (call n (sc_sessions c n) (NewContext (sc_storageState c))) (\<lambda>_.
                          call n (sc_sessions c n) NewPage)
              | Some e \<Rightarrow> throw e) (\<lambda>_.
     catch (tryBlock c n (sc_sessions c n) h (sc_existingBrowser c \<and> \<not> f))
       (\<lambda>error. andThen (onError c n (sc_sessions c n) (sc_existingBrowser c \<and> \<not> f) error)
                  (\<lambda>response. ret (Answer response))))))"
  by (simp add: attempt_def Let_def setup1_steps andThen_assoc)

text \<open>
  The state \<^verbatim>\<open>googleSearch\<close> loads before it calls \<^verbatim>\<open>performSearch\<close>, and the scope
  that \<^verbatim>\<open>performSearch\<close> then closes over.
\<close>

definition loadedState :: "session \<Rightarrow> string \<Rightarrow> json" where
  "loadedState s f = (case fst (loadSavedState s f) of Returned (st, sv) \<Rightarrow> sv | _ \<Rightarrow> JObject emptyState)"

definition loadedSnapshot :: "session \<Rightarrow> string \<Rightarrow> string option" where
  "loadedSnapshot s f = (if existsSync (files s) f then Some f else None)"

definition scopeLoaded :: "string \<Rightarrow> SearchOptions \<Rightarrow> bool \<Rightarrow> (nat \<Rightarrow> session) \<Rightarrow> scope" where
  "scopeLoaded q options existingBrowser env =
     (let c = scopeOf q options existingBrowser env
      in c\<lparr>sc_storageState := loadedSnapshot (env 0) (sc_stateFile c),
           sc_savedState := loadedState (env 0) (sc_stateFile c)\<rparr>)"

lemma loadSavedState_fst:
  "fst (loadSavedState s f) = Returned (loadedSnapshot s f, loadedState s f)"
  by (simp add: loadSavedState_def loadedState_def loadedSnapshot_def Let_def
           split: option.splits fentry.splits)

lemma googleSearch_run:
  "googleSearch q options existing env
   = (fst (performSearch (scopeLoaded q options existing env) 0 (debug options \<noteq> Some True) False),
      snd (loadSavedState (env 0) (sc_stateFile (scopeOf q options existing env)))
      @ snd (performSearch (scopeLoaded q options existing env) 0 (debug options \<noteq> Some True) False))"
proof -
  obtain es where l: "loadSavedState (env 0) (sc_stateFile (scopeOf q options existing env))
      = (Returned (loadedSnapshot (env 0) (sc_stateFile (scopeOf q options existing env)),
                   loadedState (env 0) (sc_stateFile (scopeOf q options existing env))), es)"
    using loadSavedState_fst [of "env 0" "sc_stateFile (scopeOf q options existing env)"]
    by (cases "loadSavedState (env 0) (sc_stateFile (scopeOf q options existing env))") simp
  show ?thesis
    unfolding googleSearch_def Let_def l
    by (simp add: andThen_def scopeLoaded_def Let_def scopeOf_def)
qed

lemma googleSearch_fst:
  "fst (googleSearch q options existing env)
   = fst (performSearch (scopeLoaded q options existing env) 0 (debug options \<noteq> Some True) False)"
  by (simp add: googleSearch_run)

lemma googleSearch_log:
  "snd (googleSearch q options existing env)
   = snd (loadSavedState (env 0) (sc_stateFile (scopeOf q options existing env)))
     @ snd (performSearch (scopeLoaded q options existing env) 0 (debug options \<noteq> Some True) False)"
  by (simp add: googleSearch_run)

lemma scopeOf_sel [simp]:
  "sc_query (scopeOf q options existing env) = q"
  "sc_sessions (scopeOf q options existing env) = env"
  "sc_existingBrowser (scopeOf q options existing env) = existing"
  "sc_debug (scopeOf q options existing env) = (debug options = Some True)"
  "sc_storageState (scopeOf q options existing env) = None"
  "sc_savedState (scopeOf q options existing env) = JObject emptyState"
  by (simp_all add: scopeOf_def)

lemma scopeLoaded_sel [simp]:
  "sc_query (scopeLoaded q options existing env) = q"
  "sc_sessions (scopeLoaded q options existing env) = env"
  "sc_existingBrowser (scopeLoaded q options existing env) = existing"
  "sc_debug (scopeLoaded q options existing env) = (debug options = Some True)"
  "sc_limit (scopeLoaded q options existing env) = sc_limit (scopeOf q options existing env)"
  "sc_timeout (scopeLoaded q options existing env) = sc_timeout (scopeOf q options existing env)"
  "sc_stateFile (scopeLoaded q options existing env) = sc_stateFile (scopeOf q options existing env)"
  "sc_noSaveState (scopeLoaded q options existing env) = sc_noSaveState (scopeOf q options existing env)"
  by (simp_all add: scopeLoaded_def Let_def)

lemma stateError_object [simp]: "isObject j \<Longrightarrow> stateError j = None"
  by (simp add: stateError_None)

text \<open>With no snapshot file on disk the scope is the one the defaults give.\<close>

lemma scopeLoaded_fresh:
  "\<not> existsSync (files (env 0)) (sc_stateFile (scopeOf q options existing env)) \<Longrightarrow>
     scopeLoaded q options existing env = scopeOf q options existing env"
  by (simp add: scopeLoaded_def Let_def loadedSnapshot_def loadedState_def loadSavedState_def
        scopeOf_def)

lemma googleSearch_fresh:
  assumes "\<not> existsSync (files (env 0)) (sc_stateFile (scopeOf q options existing env))"
  shows "googleSearch q options existing env
   = (fst (performSearch (scopeOf q options existing env) 0 (debug options \<noteq> Some True) False),
      Exists (sc_stateFile (scopeOf q options existing env))
      # snd (performSearch (scopeOf q options existing env) 0 (debug options \<noteq> Some True) False))"
  using assms
  by (simp add: googleSearch_run scopeLoaded_fresh loadSavedState_def Let_def)

section \<open>Example environments\<close>

text \<open>
  A session in which every operation succeeds, no challenge is shown, the second
  search-box selector matches and the page holds no result markup; the variants below
  change one aspect each.
\<close>

definition okSession :: session where
  "okSession =
     \<lparr>fails = (\<lambda>_. None), files = (\<lambda>_. None), parse = (\<lambda>_. None), dir_exists = True,
      home_url = ''https://www.google.com/'', resp_url = Some ''https://www.google.com/'',
      solve1 = None, found = (\<lambda>sel. sel = ''input[name='q']''),
      search_url = ''https://www.google.com/search?q=x'', solve2 = None,
      query_all = (\<lambda>_. []), anchors = [],
      known_device = (\<lambda>d. d \<in> set deviceList), device_choice = 0,
      host_config = \<lparr>deviceName = ''Desktop Chrome'', fp_locale = ''en-US'',
                      timezoneId = ''Europe/London'', fp_colorScheme = light,
                      fp_reducedMotion = no_preference, fp_forcedColors = none\<rparr>\<rparr>"




section \<open>Loading saved state\<close>




section \<open>The empty batch\<close>

text \<open>
  C10: for a missing or empty query list both \<^verbatim>\<open>multiGoogleSearch\<close> functions throw
  "At least one search query is required" without performing any operation, so no
  browser is launched and no response sequence is returned; for a non-empty list the
  first operation is the launch of the shared browser.
\<close>

theorem multiGoogleSearch_no_queries:
  "multiGoogleSearch None options env
     = \<lparr>b_outcome = Raised ''Error: At least one search query is required'', b_log = [], b_query_logs = []\<rparr>
   \<and> multiGoogleSearch (Some []) options env
     = \<lparr>b_outcome = Raised ''Error: At least one search query is required'', b_log = [], b_query_logs = []\<rparr>
   \<and> multiGoogleSearch2 None options env
     = \<lparr>b_outcome = Raised ''Error: At least one search query is required'', b_log = [], b_query_logs = []\<rparr>
   \<and> multiGoogleSearch2 (Some []) options env
     = \<lparr>b_outcome = Raised ''Error: At least one search query is required'', b_log = [], b_query_logs = []\<rparr>
   \<and> hd (b_log (multiGoogleSearch (Some (q # qs)) options env))
     = Call 0 (LaunchBrowser (debug options \<noteq> Some True)
                ((case timeout options of None \<Rightarrow> 60000 | Some t \<Rightarrow> if t = 0 then 60000 else t) * 2))
   \<and> hd (b_log (multiGoogleSearch2 (Some (q # qs)) options env))
     = Call 0 (LaunchBrowser (debug options \<noteq> Some True)
                ((case timeout options of None \<Rightarrow> 60000 | Some t \<Rightarrow> if t = 0 then 60000 else t) * 2))"
  by (simp add: multiGoogleSearch_def multiGoogleSearch2_def noQueries_def searchAll_def call_def
        Let_def split: outcome.splits option.splits)

section \<open>What a returned response holds\<close>

text \<open>
  The response of the \<^verbatim>\<open>catch\<close> branch is recognisable: it is the only one whose
  single result has an empty link, since extraction drops such candidates.
\<close>

definition isFailure :: "SearchResponse \<Rightarrow> bool" where
  "isFailure response =
     (case results response of
        [r] \<Rightarrow> title r = ''Search failed'' \<and> link r = []
      | _ \<Rightarrow> False)"

definition wellFormed :: "int \<Rightarrow> SearchResult list \<Rightarrow> bool" where
  "wellFormed m rs = (list_all valid_item rs \<and> (0 \<le> m \<longrightarrow> int (length rs) \<le> m))"

definition goodResponse :: "scope \<Rightarrow> SearchResponse \<Rightarrow> bool" where
  "goodResponse c response =
     (query response = sc_query c \<and>
      (wellFormed (sc_limit c) (results response)
       \<or> (\<exists>e. response = searchFailed (sc_query c) e)))"

lemma valid_eval_containers: "r \<in> set (eval_containers m ts ss els) \<Longrightarrow> valid_item r"
  by (simp add: eval_containers_def)

lemma valid_eval_anchors: "r \<in> set (eval_anchors m els) \<Longrightarrow> valid_item r"
  by (simp add: eval_anchors_def)

lemma length_eval_containers: "0 \<le> m \<Longrightarrow> int (length (eval_containers m ts ss els)) \<le> m"
proof -
  assume m: "0 \<le> m"
  have "length (eval_containers m ts ss els) \<le> length (slice0 m els)"
    unfolding eval_containers_def
    by (rule order_trans [OF length_filter_le]) simp
  with length_slice0 [OF m, of els] show ?thesis by linarith
qed

lemma length_eval_anchors: "0 \<le> m \<Longrightarrow> int (length (eval_anchors m els)) \<le> m"
proof -
  assume m: "0 \<le> m"
  have "length (eval_anchors m els) \<le> length (slice0 m (filter outbound els))"
    unfolding eval_anchors_def
    by (rule order_trans [OF length_filter_le]) simp
  with length_slice0 [OF m, of "filter outbound els"] show ?thesis by linarith
qed

lemma wellFormed_Nil: "wellFormed m []"
  by (simp add: wellFormed_def)

lemma wellFormed_containers: "wellFormed m (eval_containers m ts ss els)"
  by (simp add: wellFormed_def list_all_iff valid_eval_containers length_eval_containers)

lemma wellFormed_anchors: "wellFormed m (eval_anchors m els)"
  by (simp add: wellFormed_def list_all_iff valid_eval_anchors length_eval_anchors)

lemma trySelectors_wellFormed:
  "fst (trySelectors n s m sels acc) = Returned rs \<Longrightarrow> wellFormed m acc \<Longrightarrow> wellFormed m rs"
proof (induction sels arbitrary: acc)
  case Nil
  then show ?case by simp
next
  case (Cons sel sels)
  then show ?case
    by (auto simp: andThen_Returned Let_def wellFormed_containers wellFormed_Nil split: if_splits)
qed

lemma extractResults_wellFormed:
  "fst (extractResults n s m) = Returned rs \<Longrightarrow> wellFormed m rs"
  by (auto simp: extractResults_def andThen_Returned wellFormed_anchors wellFormed_Nil
           split: if_splits dest: trySelectors_wellFormed)

lemma resultsPhase_good:
  "fst (resultsPhase c n s p) = Returned v \<Longrightarrow>
     \<exists>rs. v = Answer \<lparr>query = sc_query c, results = rs\<rparr> \<and> wellFormed (sc_limit c) rs"
  by (auto simp: resultsPhase_def andThen_Returned
           dest!: finish_verdict extractResults_wellFormed)

lemma submitPhase_good:
  "fst (submitPhase c n s h p) = Returned v \<Longrightarrow>
     v = Restart \<or> (\<exists>rs. v = Answer \<lparr>query = sc_query c, results = rs\<rparr> \<and> wellFormed (sc_limit c) rs)"
  by (auto simp: submitPhase_def andThen_Returned split: if_splits dest!: resultsPhase_good)

lemma tryBlock_good:
  "fst (tryBlock c n s h p) = Returned v \<Longrightarrow>
     v = Restart \<or> (\<exists>rs. v = Answer \<lparr>query = sc_query c, results = rs\<rparr> \<and> wellFormed (sc_limit c) rs)"
  by (auto simp: tryBlock_def andThen_Returned split: if_splits dest!: submitPhase_good)

lemma onError_response:
  "fst (onError c n s p e) = Returned r \<Longrightarrow> r = searchFailed (sc_query c) e"
  by (auto simp: onError_def andThen_Returned)

lemma attempt_good:
  "fst (attempt c n h f) = Returned (Answer response) \<Longrightarrow> goodResponse c response"
  by (auto simp: attempt_def Let_def andThen_Returned catch_Returned goodResponse_def searchFailed_def
           dest!: tryBlock_good onError_response)

lemma performSearch_good:
  "fst (performSearch c n h f) = Returned response \<Longrightarrow> goodResponse c response"
proof (induction c n h f rule: performSearch.induct)
  case (1 c n headless forceNewBrowser)
  show ?case
  proof (cases "fst (attempt c n headless forceNewBrowser)")
    case (Returned v)
    show ?thesis
    proof (cases v)
      case Restart
      with Returned "1.prems" have
        "fst (performSearch c (Suc n) False (sc_existingBrowser c \<and> \<not> forceNewBrowser)) = Returned response"
        by (simp add: performSearch.simps [of c n] Let_def)
      with "1.IH" Returned Restart show ?thesis by simp
    next
      case (Answer r)
      with Returned "1.prems" have "r = response"
        by (simp add: performSearch.simps [of c n] Let_def)
      with Returned Answer show ?thesis by (auto dest: attempt_good)
    qed
  next
    case (Raised e)
    with "1.prems" show ?thesis by (simp add: performSearch.simps [of c n] Let_def)
  next
    case Pending
    with "1.prems" show ?thesis by (simp add: performSearch.simps [of c n] Let_def)
  qed
qed

lemma googleSearch_good:
  assumes "fst (googleSearch q options existing env) = Returned response"
  shows "goodResponse (scopeOf q options existing env) response"
proof -
  from assms have
    "fst (performSearch (scopeLoaded q options existing env) 0 (debug options \<noteq> Some True) False)
     = Returned response"
    by (simp add: googleSearch_fst)
  from performSearch_good [OF this] show ?thesis by (simp add: goodResponse_def)
qed

lemma not_failure_wellFormed:
  "goodResponse c response \<Longrightarrow> \<not> isFailure response \<Longrightarrow> wellFormed (sc_limit c) (results response)"
  by (auto simp: goodResponse_def isFailure_def searchFailed_def)

section \<open>Running the model on the examples\<close>

definition hit :: "string \<Rightarrow> string \<Rightarrow> element" where
  "hit t l = \<lparr>el_text = (\<lambda>sel. if sel = ''h3'' then Some t else None), el_href = Some l\<rparr>"

definition item :: "string \<Rightarrow> string \<Rightarrow> SearchResult" where
  "item t l = \<lparr>title = t, link = l, snippet = []\<rparr>"

definition threeHits :: session where
  "threeHits = okSession\<lparr>query_all := (\<lambda>sel. if sel = ''#search .g''
       then [hit ''A'' ''http://a'', hit ''B'' ''http://b'', hit ''C'' ''http://c''] else [])\<rparr>"

definition noBox :: session where
  "noBox = okSession\<lparr>found := (\<lambda>_. False)\<rparr>"

definition defaults :: SearchOptions where
  "defaults = \<lparr>limit = None, timeout = None, stateFile = None, noSaveState = None, debug = None\<rparr>"

lemma fst_prepend [simp]: "fst (case p of (r, es') \<Rightarrow> (r, es @ es')) = fst p"
  by (cases p) simp

lemma snd_prepend [simp]: "snd (case p of (r, es') \<Rightarrow> (r, es @ es')) = es @ snd p"
  by (cases p) simp

lemma andThen_eval:
  "andThen (Returned x, es) f = (case f x of (r, es') \<Rightarrow> (r, es @ es'))"
  "andThen (Raised e, es) f = (Raised e, es)"
  "andThen (Pending, es) f = (Pending, es)"
  by (simp_all add: andThen_def split: prod.splits)

lemma catch_eval:
  "catch (Returned x, es) h = (Returned x, es)"
  "catch (Raised e, es) h = (case h e of (r, es') \<Rightarrow> (r, es @ es'))"
  "catch (Pending, es) h = (Pending, es)"
  by (simp_all add: catch_def split: prod.splits)

lemma performSearch_eval:
  "attempt c n h f = (Returned (Answer r), es) \<Longrightarrow> performSearch c n h f = (Returned r, es)"
  "attempt c n h f = (Raised e, es) \<Longrightarrow> performSearch c n h f = (Raised e, es)"
  "attempt c n h f = (Pending, es) \<Longrightarrow> performSearch c n h f = (Pending, es)"
  "attempt c n h f = (Returned Restart, es) \<Longrightarrow>
     performSearch c n h f =
       (case performSearch c (Suc n) False (sc_existingBrowser c \<and> \<not> f) of (r, es') \<Rightarrow> (r, es @ es'))"
  by (simp_all add: performSearch.simps [of c n] split: prod.splits)

lemmas run_defs =
  attempt_def setup1_steps stateError_def tryBlock_def
  submitPhase_def resultsPhase_def finish_def onError_def discardSession_def extractResults_def
  saveBrowserState_def waitChallenge_def call_def runIf_def andThen_eval catch_eval ret_def throw_def
  isBlocked_def captchaPatterns_def searchInputSelectors_def searchResultSelectors_def
  resultSelectors_def anchorSelector_def eval_containers_def eval_anchors_def container_item_def
  anchor_item_def valid_item_def outbound_def orEmpty_def slice0_def startsWith_def
  searchFailed_def loadSavedState_def existsSync_def scopeOf_def

lemma fresh_examples [simp]:
  "\<not> existsSync (files okSession) f" "\<not> existsSync (files threeHits) f"
  "\<not> existsSync (files noBox) f"
  by (simp_all add: existsSync_def okSession_def threeHits_def noBox_def)

lemma defaults_sel [simp]:
  "limit defaults = None" "timeout defaults = None" "stateFile defaults = None"
  "noSaveState defaults = None" "debug defaults = None"
  by (simp_all add: defaults_def)

lemma stateFile_defaults [simp]:
  "sc_stateFile (scopeOf q defaults existing env) = ''./browser-state.json''"
  "sc_stateFile (scopeOf q (defaults\<lparr>limit := l\<rparr>) existing env) = ''./browser-state.json''"
  "sc_stateFile (scopeOf q (defaults\<lparr>debug := d\<rparr>) existing env) = ''./browser-state.json''"
  "sc_stateFile (scopeOf q (defaults\<lparr>timeout := t\<rparr>) existing env) = ''./browser-state.json''"
  by (simp_all add: scopeOf_def defaults_def)

lemma threeHits_run:
  "googleSearch ''x'' defaults False (\<lambda>_. threeHits)
   = (Returned \<lparr>query = ''x'',
        results = [item ''A'' ''http://a'', item ''B'' ''http://b'', item ''C'' ''http://c'']\<rparr>,
      [Exists ''./browser-state.json'',
       Enter 0 True, Call 0 (LaunchBrowser True 120000), Call 0 (NewContext None), Call 0 NewPage,
       Call 0 Goto, Call 0 (QuerySelector ''textarea[name='q']''),
       Call 0 (QuerySelector ''input[name='q']''), Call 0 Click, Call 0 (TypeQuery ''x''),
       Call 0 Pause, Call 0 PressEnter, Call 0 WaitLoad, Call 0 (WaitSelector ''#search''),
       Call 0 (EvalAll ''#search .g''), Call 0 (StorageState ''./browser-state.json''),
       Call 0 (WriteFile ''./browser-state-fingerprint.json''), Call 0 (CloseBrowser AtReturn)])"
proof -
  have "attempt (scopeOf ''x'' defaults False (\<lambda>_. threeHits)) 0 True False
        = (Returned (Answer \<lparr>query = ''x'',
             results = [item ''A'' ''http://a'', item ''B'' ''http://b'', item ''C'' ''http://c'']\<rparr>),
           [Enter 0 True, Call 0 (LaunchBrowser True 120000), Call 0 (NewContext None), Call 0 NewPage,
            Call 0 Goto, Call 0 (QuerySelector ''textarea[name='q']''),
            Call 0 (QuerySelector ''input[name='q']''), Call 0 Click, Call 0 (TypeQuery ''x''),
            Call 0 Pause, Call 0 PressEnter, Call 0 WaitLoad, Call 0 (WaitSelector ''#search''),
            Call 0 (EvalAll ''#search .g''), Call 0 (StorageState ''./browser-state.json''),
            Call 0 (WriteFile ''./browser-state-fingerprint.json''), Call 0 (CloseBrowser AtReturn)])"
    by (simp add: run_defs defaults_def threeHits_def okSession_def hit_def item_def
          fingerprintFileOf_def)
  from performSearch_eval(1) [OF this] show ?thesis
    by (simp add: googleSearch_fresh)
qed

lemma negative_limit_run:
  "fst (googleSearch ''x'' (defaults\<lparr>limit := Some (- 1)\<rparr>) False (\<lambda>_. threeHits))
   = Returned \<lparr>query = ''x'', results = [item ''A'' ''http://a'', item ''B'' ''http://b'']\<rparr>"
proof -
  have "\<exists>es. attempt (scopeOf ''x'' (defaults\<lparr>limit := Some (- 1)\<rparr>) False (\<lambda>_. threeHits))
                 0 True False
        = (Returned (Answer \<lparr>query = ''x'',
             results = [item ''A'' ''http://a'', item ''B'' ''http://b'']\<rparr>), es)"
    by (simp add: run_defs defaults_def threeHits_def okSession_def hit_def item_def)
  then obtain es where
    "attempt (scopeOf ''x'' (defaults\<lparr>limit := Some (- 1)\<rparr>) False (\<lambda>_. threeHits))
                 0 True False
        = (Returned (Answer \<lparr>query = ''x'',
             results = [item ''A'' ''http://a'', item ''B'' ''http://b'']\<rparr>), es)" ..
  from performSearch_eval(1) [OF this] show ?thesis
    by (simp add: googleSearch_fresh)
qed

lemma noBox_run:
  "googleSearch ''x'' defaults False (\<lambda>_. noBox)
   = (Returned (searchFailed ''x'' ''Error: Could not find search box''),
      [Exists ''./browser-state.json'', Enter 0 True, Call 0 (LaunchBrowser True 120000), Call 0 (NewContext None), Call 0 NewPage,
       Call 0 Goto, Call 0 (QuerySelector ''textarea[name='q']''),
       Call 0 (QuerySelector ''input[name='q']''), Call 0 (QuerySelector ''textarea[title='Search']''),
       Call 0 (QuerySelector ''textarea''), Call 0 (CloseBrowser AtCatch)])"
proof -
  have "attempt (scopeOf ''x'' defaults False (\<lambda>_. noBox)) 0 True False
        = (Returned (Answer (searchFailed ''x'' ''Error: Could not find search box'')),
           [Enter 0 True, Call 0 (LaunchBrowser True 120000), Call 0 (NewContext None), Call 0 NewPage,
            Call 0 Goto, Call 0 (QuerySelector ''textarea[name='q']''),
            Call 0 (QuerySelector ''input[name='q']''), Call 0 (QuerySelector ''textarea[title='Search']''),
            Call 0 (QuerySelector ''textarea''), Call 0 (CloseBrowser AtCatch)])"
    by (simp add: run_defs defaults_def noBox_def okSession_def)
  from performSearch_eval(1) [OF this] show ?thesis
    by (simp add: googleSearch_fresh)
qed

section \<open>Result limit and validity\<close>

text \<open>
  C2, as stated, covers every options value. With \<^verbatim>\<open>limit = -1\<close> and three valid
  result containers on the page, \<^verbatim>\<open>slice(0, -1)\<close> keeps two of them, and two results
  are more than the limit.
\<close>

theorem negative_limit_exceeded:
  "fst (googleSearch ''x'' (defaults\<lparr>limit := Some (- 1)\<rparr>) False (\<lambda>_. threeHits))
     = Returned \<lparr>query = ''x'', results = [item ''A'' ''http://a'', item ''B'' ''http://b'']\<rparr>
   \<and> \<not> isFailure \<lparr>query = ''x'', results = [item ''A'' ''http://a'', item ''B'' ''http://b'']\<rparr>
   \<and> \<not> int (length [item ''A'' ''http://a'', item ''B'' ''http://b'']) \<le> - 1"
  by (simp add: negative_limit_run isFailure_def)

text \<open>
  C2 (amended): for every query and every options value whose result limit (default 10)
  is not negative, the results of a returned response that is not the failure
  response number at most the limit, whichever extraction strategy produced them.
\<close>

theorem results_within_limit:
  assumes "fst (googleSearch q options existing env) = Returned response"
    and "\<not> isFailure response"
    and "0 \<le> (case limit options of None \<Rightarrow> 10 | Some l \<Rightarrow> l)"
  shows "int (length (results response)) \<le> (case limit options of None \<Rightarrow> 10 | Some l \<Rightarrow> l)"
  using not_failure_wellFormed [OF googleSearch_good [OF assms(1)] assms(2)] assms(3)
  by (simp add: wellFormed_def scopeOf_def)

theorem results_within_limit_witness:
  "fst (googleSearch ''x'' defaults False (\<lambda>_. threeHits))
     = Returned \<lparr>query = ''x'',
         results = [item ''A'' ''http://a'', item ''B'' ''http://b'', item ''C'' ''http://c'']\<rparr>
   \<and> \<not> isFailure \<lparr>query = ''x'',
         results = [item ''A'' ''http://a'', item ''B'' ''http://b'', item ''C'' ''http://c'']\<rparr>
   \<and> (0::int) \<le> (case limit defaults of None \<Rightarrow> 10 | Some l \<Rightarrow> l)
   \<and> int (length [item ''A'' ''http://a'', item ''B'' ''http://b'', item ''C'' ''http://c''])
       \<le> (case limit defaults of None \<Rightarrow> 10 | Some l \<Rightarrow> l)"
  using results_within_limit [of "''x''" defaults False "\<lambda>_. threeHits"
          "\<lparr>query = ''x'',
            results = [item ''A'' ''http://a'', item ''B'' ''http://b'', item ''C'' ''http://c'']\<rparr>"]
  by (simp add: threeHits_run isFailure_def defaults_def [THEN arg_cong, of limit])

text \<open>
  C3, as stated, covers every response \<^verbatim>\<open>googleSearch\<close> returns. When no search box is
  found the response holds the synthetic failure result, whose link is empty.
\<close>

theorem failure_result_has_empty_link:
  "fst (googleSearch ''x'' defaults False (\<lambda>_. noBox))
     = Returned \<lparr>query = ''x'',
         results = [\<lparr>title = ''Search failed'', link = [],
                     snippet = ''Error: Could not find search box''\<rparr>]\<rparr>"
  by (simp add: noBox_run searchFailed_def)

text \<open>
  C3 (amended): in every response \<^verbatim>\<open>googleSearch\<close> returns other than the failure
  response, every result has a non-empty title and a non-empty link; both page-side
  extraction callbacks drop every candidate with an empty title or an empty link.
\<close>

theorem results_valid:
  "(fst (googleSearch q options existing env) = Returned response \<and> \<not> isFailure response
      \<longrightarrow> (\<forall>r \<in> set (results response). title r \<noteq> [] \<and> link r \<noteq> []))
   \<and> (\<forall>r \<in> set (eval_containers m ts ss els). title r \<noteq> [] \<and> link r \<noteq> [])
   \<and> (\<forall>r \<in> set (eval_anchors m as). title r \<noteq> [] \<and> link r \<noteq> [])"
proof (intro conjI impI)
  assume a: "fst (googleSearch q options existing env) = Returned response \<and> \<not> isFailure response"
  then have "wellFormed (sc_limit (scopeOf q options existing env)) (results response)"
    using not_failure_wellFormed googleSearch_good by blast
  then show "\<forall>r \<in> set (results response). title r \<noteq> [] \<and> link r \<noteq> []"
    by (simp add: wellFormed_def list_all_iff valid_item_def)
next
  show "\<forall>r \<in> set (eval_containers m ts ss els). title r \<noteq> [] \<and> link r \<noteq> []"
    using valid_eval_containers by (auto simp: valid_item_def)
next
  show "\<forall>r \<in> set (eval_anchors m as). title r \<noteq> [] \<and> link r \<noteq> []"
    using valid_eval_anchors by (auto simp: valid_item_def)
qed

theorem results_valid_witness:
  "fst (googleSearch ''x'' defaults False (\<lambda>_. threeHits))
     = Returned \<lparr>query = ''x'',
         results = [item ''A'' ''http://a'', item ''B'' ''http://b'', item ''C'' ''http://c'']\<rparr>
   \<and> \<not> isFailure \<lparr>query = ''x'',
         results = [item ''A'' ''http://a'', item ''B'' ''http://b'', item ''C'' ''http://c'']\<rparr>
   \<and> list_all valid_item [item ''A'' ''http://a'', item ''B'' ''http://b'', item ''C'' ''http://c'']
   \<and> eval_containers 1 ''h3'' ''.s'' [hit [] ''http://a'', hit ''B'' ''http://b''] = []
   \<and> eval_containers 2 ''h3'' ''.s'' [hit [] ''http://a'', hit ''B'' ''http://b''] = [item ''B'' ''http://b'']"
  using results_valid [of "''x''" defaults False "\<lambda>_. threeHits"
          "\<lparr>query = ''x'',
            results = [item ''A'' ''http://a'', item ''B'' ''http://b'', item ''C'' ''http://c'']\<rparr>"
          2 "''h3''" "''.s''" "[hit [] ''http://a'', hit ''B'' ''http://b'']" "[]"]
  by (simp add: threeHits_run isFailure_def valid_item_def item_def eval_containers_def
        container_item_def orEmpty_def slice0_def hit_def)

section \<open>Which failures are caught\<close>



definition queryOptions :: "SearchOptions \<Rightarrow> nat \<Rightarrow> SearchOptions" where
  "queryOptions options index = options\<lparr>stateFile := Some (queryStateFile options index)\<rparr>"

text \<open>
  How the \<^verbatim>\<open>try\<close> block of a query ends: as that of the first invocation of
  \<^verbatim>\<open>performSearch\<close> does, or, when that one hands over to the visible retry, as that
  of the retry does. The retry is called with \<^verbatim>\<open>forceNewBrowser = browserWasProvided\<close>,
  so it never uses the browser of the caller.
\<close>

definition tryOutcome :: "scope \<Rightarrow> bool \<Rightarrow> verdict outcome" where
  "tryOutcome c headless =
     (case fst (tryBlock c 0 (sc_sessions c 0) headless (sc_existingBrowser c)) of
        Returned Restart \<Rightarrow> fst (tryBlock c (Suc 0) (sc_sessions c (Suc 0)) False False)
      | r \<Rightarrow> r)"

lemma call_Raised: "fst (call n s oper) = Raised e \<longleftrightarrow> fails s oper = Some e"
  by (simp add: call_def split: option.splits)






subsection \<open>Only a wait without timeout stays pending\<close>

lemma call_not_Pending [simp]: "fst (call n s oper) \<noteq> Pending"
  by (simp add: call_def split: option.splits)

lemma runIf_call_not_Pending [simp]: "fst (runIf b (call n s oper)) \<noteq> Pending"
  by (simp add: runIf_def)


lemma discardSession_not_Pending [simp]: "fst (discardSession n s p) \<noteq> Pending"
  by (simp add: discardSession_def andThen_Pending)

lemma findInput_not_Pending [simp]: "fst (findInput n s sels) \<noteq> Pending"
  by (induction sels) (simp_all add: andThen_Pending)

lemma waitResults_not_Pending [simp]: "fst (waitResults n s sels) \<noteq> Pending"
  by (induction sels) (simp_all add: andThen_Pending catch_Pending)

lemma trySelectors_not_Pending [simp]: "fst (trySelectors n s m sels acc) \<noteq> Pending"
  by (induction sels arbitrary: acc) (simp_all add: andThen_Pending Let_def)

lemma extractResults_not_Pending [simp]: "fst (extractResults n s m) \<noteq> Pending"
  by (simp add: extractResults_def andThen_Pending)

lemma saveBrowserState_not_Pending [simp]: "fst (saveBrowserState n s f) \<noteq> Pending"
  by (simp add: saveBrowserState_def andThen_Pending)

lemma finish_not_Pending [simp]: "fst (finish c n s p rs) \<noteq> Pending"
  by (simp add: finish_def andThen_Pending runIf_def)

lemma resultsPhase_not_Pending [simp]: "fst (resultsPhase c n s p) \<noteq> Pending"
  by (simp add: resultsPhase_def andThen_Pending)




subsection \<open>What a query delivers when its set-up succeeds\<close>


lemma finish_state [simp]:
  "finish (c\<lparr>sc_storageState := st\<rparr>) n s p rs = finish c n s p rs"
  "finish (c\<lparr>sc_savedState := sv\<rparr>) n s p rs = finish c n s p rs"
  by (simp_all add: finish_def)

lemma resultsPhase_state [simp]:
  "resultsPhase (c\<lparr>sc_storageState := st\<rparr>) n s p = resultsPhase c n s p"
  "resultsPhase (c\<lparr>sc_savedState := sv\<rparr>) n s p = resultsPhase c n s p"
  by (simp_all add: resultsPhase_def)

lemma submitPhase_state [simp]:
  "submitPhase (c\<lparr>sc_storageState := st\<rparr>) n s h p = submitPhase c n s h p"
  "submitPhase (c\<lparr>sc_savedState := sv\<rparr>) n s h p = submitPhase c n s h p"
  by (simp_all add: submitPhase_def cong: if_cong)

lemma tryBlock_state [simp]:
  "tryBlock (c\<lparr>sc_storageState := st\<rparr>) n s h p = tryBlock c n s h p"
  "tryBlock (c\<lparr>sc_savedState := sv\<rparr>) n s h p = tryBlock c n s h p"
  by (simp_all add: tryBlock_def cong: if_cong)

lemma tryBlock_scopeLoaded [simp]:
  "tryBlock (scopeLoaded q options existing env) n s h p = tryBlock (scopeOf q options existing env) n s h p"
  by (simp add: scopeLoaded_def Let_def)

lemma tryOutcome_scopeLoaded [simp]:
  "tryOutcome (scopeLoaded q options existing env) h = tryOutcome (scopeOf q options existing env) h"
  by (simp add: tryOutcome_def split: outcome.splits verdict.splits)


subsection \<open>Promise.all\<close>


lemma promiseAll_ReturnedD: "promiseAll rs = Returned xs \<Longrightarrow> rs = map Returned xs"
proof (induction rs arbitrary: xs)
  case Nil
  then show ?case by simp
next
  case (Cons r rs)
  show ?case
  proof (cases r)
    case (Returned x)
    with Cons.prems obtain ys where ys: "promiseAll rs = Returned ys" and xs: "xs = x # ys"
      by (cases "promiseAll rs") simp_all
    from Cons.IH [OF ys] Returned xs show ?thesis by simp
  next
    case (Raised e)
    with Cons.prems show ?thesis by simp
  next
    case Pending
    with Cons.prems show ?thesis by (cases "promiseAll rs") simp_all
  qed
qed




lemma queryOptions_sel [simp]:
  "debug (queryOptions options i) = debug options"
  "timeout (queryOptions options i) = timeout options"
  "limit (queryOptions options i) = limit options"
  "noSaveState (queryOptions options i) = noSaveState options"
  "sc_stateFile (scopeOf q (queryOptions options i) existing env) = queryStateFile options i"
  by (simp_all add: queryOptions_def scopeOf_def)

subsection \<open>Example batches\<close>

text \<open>
  A session that shows a challenge on the home page, one in which no context can be
  created, and three batches of two queries: one whose first query finds no search
  box, one whose first query meets a challenge and finds no search box in its visible
  retry, and one whose first query cannot create its context. The second query finds
  three results each time.
\<close>

definition challenged :: session where
  "challenged = okSession\<lparr>home_url := ''https://www.google.com/sorry/index''\<rparr>"

definition noContext :: session where
  "noContext = okSession\<lparr>fails := (\<lambda>oper. case oper of
       NewContext st \<Rightarrow> Some ''Error: browser.newContext: Browser closed''
     | _ \<Rightarrow> None)\<rparr>"

definition mixedBatch :: batch_env where
  "mixedBatch = \<lparr>shared = okSession, per_query = (\<lambda>i n. if i = 0 then noBox else threeHits)\<rparr>"



lemma fresh_challenged [simp]:
  "\<not> existsSync (files challenged) f" "\<not> existsSync (files noContext) f"
  by (simp_all add: existsSync_def challenged_def noContext_def okSession_def)







section \<open>Failures inside a batch\<close>






section \<open>Traces\<close>

text \<open>
  The events an invocation of \<^verbatim>\<open>performSearch\<close> with index \<open>n\<close> may emit once its
  browser is there: operations of that invocation, no launch, and a browser close
  only where \<open>closable\<close> allows it.
\<close>

definition inner :: "nat \<Rightarrow> bool \<Rightarrow> event \<Rightarrow> bool" where
  "inner n closable e =
     (case e of
        Call m oper \<Rightarrow>
          m = n \<and> (case oper of LaunchBrowser h t \<Rightarrow> False | CloseBrowser pl \<Rightarrow> closable | _ \<Rightarrow> True)
      | _ \<Rightarrow> False)"

lemma all_ret: "list_all P (snd (ret x))"
  by simp

lemma all_throw: "list_all P (snd (throw e))"
  by simp

lemma all_call: "P (Call n oper) \<Longrightarrow> list_all P (snd (call n s oper))"
  by (simp add: call_def)

lemma all_waitChallenge: "P (Call n (WaitChallenge t)) \<Longrightarrow> list_all P (snd (waitChallenge n t d))"
  by (simp add: waitChallenge_def)

lemma all_runIf: "list_all P (snd m) \<Longrightarrow> list_all P (snd (runIf b m))"
  by (simp add: runIf_def)

lemma all_andThen:
  "list_all P (snd m) \<Longrightarrow> (\<And>x. list_all P (snd (f x))) \<Longrightarrow> list_all P (snd (andThen m f))"
  by (simp add: snd_andThen split: outcome.splits)

lemma all_catch:
  "list_all P (snd m) \<Longrightarrow> (\<And>e. list_all P (snd (h e))) \<Longrightarrow> list_all P (snd (catch m h))"
  by (simp add: snd_catch split: outcome.splits)

lemma all_if:
  "(b \<Longrightarrow> list_all P (snd m)) \<Longrightarrow> (\<not> b \<Longrightarrow> list_all P (snd m')) \<Longrightarrow> list_all P (snd (if b then m else m'))"
  by simp

lemma all_runIf_call:
  "(b \<Longrightarrow> P (Call n oper)) \<Longrightarrow> list_all P (snd (runIf b (call n s oper)))"
  by (simp add: runIf_def call_def)

lemmas all_intros = all_ret all_throw all_call all_waitChallenge all_runIf all_andThen all_catch all_if

lemma inner_simps [simp]:
  "inner n b (Call n Goto)" "inner n b (Call n ClosePage)" "inner n b (Call n CloseContext)"
  "inner n b (Call n (WaitChallenge t))" "inner n b (Call n (QuerySelector sel))"
  "inner n b (Call n Click)" "inner n b (Call n (TypeQuery q))" "inner n b (Call n Pause)"
  "inner n b (Call n PressEnter)" "inner n b (Call n WaitLoad)" "inner n b (Call n WaitLoadSolved)"
  "inner n b (Call n WaitResultUrl)" "inner n b (Call n (WaitSelector sel))"
  "inner n b (Call n (EvalAll sel))" "inner n b (Call n Mkdir)" "inner n b (Call n (StorageState f))"
  "inner n b (Call n (WriteFile f))" "inner n b (Call n NewPage)" "inner n b (Call n (NewContext st))"
  "inner n b (Call n (CloseBrowser pl)) = b"
  by (simp_all add: inner_def)

lemma inner_discardSession: "list_all (inner n (\<not> p)) (snd (discardSession n s p))"
  unfolding discardSession_def by (intro all_andThen all_call all_runIf_call; simp)

lemma inner_findInput: "list_all (inner n b) (snd (findInput n s sels))"
  by (induction sels) (auto intro!: all_intros)

lemma inner_waitResults: "list_all (inner n b) (snd (waitResults n s sels))"
  by (induction sels) (auto intro!: all_intros)

lemma inner_trySelectors: "list_all (inner n b) (snd (trySelectors n s m sels acc))"
  by (induction sels arbitrary: acc) (auto intro!: all_intros simp: Let_def)

lemma inner_extractResults: "list_all (inner n b) (snd (extractResults n s m))"
  unfolding extractResults_def by (intro all_intros inner_trySelectors; simp)

lemma inner_saveBrowserState: "list_all (inner n b) (snd (saveBrowserState n s f))"
  unfolding saveBrowserState_def by (intro all_intros; simp)








lemma all_getDeviceName: "list_all P (snd (getDeviceName s j))"
  by simp

lemma all_resolveContextOptions: "list_all P (snd (resolveContextOptions s j d))"
  by simp

lemma all_stateError:
  "(stateError j = None \<Longrightarrow> list_all P (snd m)) \<Longrightarrow>
     list_all P (snd (case stateError j of None \<Rightarrow> m | Some e \<Rightarrow> throw e))"
  by (cases "stateError j") simp_all

lemma all_loadSavedState:
  assumes "P (Exists f)" and "P (Exists (fingerprintFileOf f))" and "P (Read (fingerprintFileOf f))"
    and "P cannotLoad"
  shows "list_all P (snd (loadSavedState s f))"
  using assms by (simp add: loadSavedState_def Let_def split: option.splits fentry.splits)

lemma all_setupContext2:
  assumes "list_all P (snd (loadSavedState s f))" and "\<And>st. P (Call n (NewContext st))"
  shows "list_all P (snd (setupContext2 n s f))"
proof -
  obtain es where l: "loadSavedState s f = (Returned (loadedSnapshot s f, loadedState s f), es)"
    using loadSavedState_fst [of s f] by (cases "loadSavedState s f") simp
  with assms(1) have "list_all P es" by simp
  with assms(2) show ?thesis
    unfolding setupContext2_def l resolve2_steps
    by (cases "stateError (loadedState s f)") (simp_all add: andThen_def call_def)
qed

text \<open>
  The trace of one invocation: the entry, the launch unless the browser of the caller
  is used, and then only events of the context, the page, the \<^verbatim>\<open>try\<close> block and the
  \<^verbatim>\<open>catch\<close> block.
\<close>

lemma attempt_shape:
  assumes "P (Call n (NewContext (sc_storageState c)))" and "P (Call n NewPage)"
    and "list_all P (snd (tryBlock c n (sc_sessions c n) h (sc_existingBrowser c \<and> \<not> f)))"
    and "\<And>e. list_all P (snd (onError c n (sc_sessions c n) (sc_existingBrowser c \<and> \<not> f) e))"
  shows "\<exists>rest. snd (attempt c n h f)
      = Enter n h # (if sc_existingBrowser c \<and> \<not> f then []
                     else [Call n (LaunchBrowser h (sc_timeout c * 2))]) @ rest
     \<and> list_all P rest"
proof -
  define p where "p = (sc_existingBrowser c \<and> \<not> f)"
  define s where "s = sc_sessions c n"
  define g where "g = andThen (case stateError (sc_savedState c) of
                None \<Rightarrow> andThen (call n s (NewContext (sc_storageState c))) (\<lambda>_. call n s NewPage)
              | Some e \<Rightarrow> throw e) (\<lambda>_.
           catch (tryBlock c n s h p)
             (\<lambda>error. andThen (onError c n s p error) (\<lambda>response. ret (Answer response))))"
  have g: "list_all P (snd g)"
    unfolding g_def
    using assms unfolding p_def [symmetric] s_def [symmetric]
    by (intro all_andThen all_catch all_stateError all_call all_ret) simp_all
  have a: "attempt c n h f
           = andThen (Returned (), [Enter n h]) (\<lambda>_.
             andThen (runIf (\<not> p) (call n s (LaunchBrowser h (sc_timeout c * 2)))) (\<lambda>_. g))"
    unfolding attempt_steps g_def p_def s_def by (rule refl)
  have "snd (attempt c n h f)
        = Enter n h # (if p then [] else [Call n (LaunchBrowser h (sc_timeout c * 2))])
          @ (if p \<or> fails s (LaunchBrowser h (sc_timeout c * 2)) = None then snd g else [])"
    unfolding a by (simp add: snd_andThen runIf_def call_def split: option.splits)
  with g show ?thesis unfolding p_def by (intro exI conjI) (assumption, simp)
qed

text \<open>
  The modes (headless or not) in which \<^verbatim>\<open>performSearch\<close> was entered during a
  query, in order.
\<close>

fun entries :: "event list \<Rightarrow> bool list" where
  "entries [] = []"
| "entries (Enter n h # es) = h # entries es"
| "entries (Call n oper # es) = entries es"
| "entries (Warn w # es) = entries es"
| "entries (Exists f # es) = entries es"
| "entries (Read f # es) = entries es"

definition quiet :: "event \<Rightarrow> bool" where
  "quiet e = (case e of Enter n h \<Rightarrow> False | _ \<Rightarrow> True)"

lemma entries_append [simp]: "entries (xs @ ys) = entries xs @ entries ys"
  by (induction xs rule: entries.induct) simp_all



lemma quiet_simps [simp]: "quiet (Call n oper)" "quiet (Warn w)" "quiet (Exists f)" "quiet (Read f)"
  by (simp_all add: quiet_def)



lemma performSearch_log:
  "snd (performSearch c n h f)
   = snd (attempt c n h f)
     @ (if fst (attempt c n h f) = Returned Restart
        then snd (performSearch c (Suc n) False (sc_existingBrowser c \<and> \<not> f)) else [])"
  by (simp add: performSearch.simps [of c n] Let_def split: outcome.splits verdict.splits)










section \<open>Which events a phase may emit\<close>

text \<open>
  For a property \<open>P\<close> of events: what has to hold of the events a function names for
  \<open>P\<close> to hold of its whole trace.
\<close>

lemma all_findInput:
  "(\<And>sel. P (Call n (QuerySelector sel))) \<Longrightarrow> list_all P (snd (findInput n s sels))"
  by (induction sels) (auto intro!: all_intros)

lemma all_waitResults:
  "(\<And>sel. P (Call n (WaitSelector sel))) \<Longrightarrow> list_all P (snd (waitResults n s sels))"
  by (induction sels) (auto intro!: all_intros)

lemma all_trySelectors:
  "(\<And>sel. P (Call n (EvalAll sel))) \<Longrightarrow> list_all P (snd (trySelectors n s m sels acc))"
  by (induction sels arbitrary: acc) (auto intro!: all_intros simp: Let_def)

lemma all_extractResults:
  "(\<And>sel. P (Call n (EvalAll sel))) \<Longrightarrow> list_all P (snd (extractResults n s m))"
  unfolding extractResults_def by (intro all_intros all_trySelectors; simp)

lemma all_discardSession:
  "P (Call n ClosePage) \<Longrightarrow> P (Call n CloseContext) \<Longrightarrow>
   (\<not> p \<Longrightarrow> P (Call n (CloseBrowser AtEscalation))) \<Longrightarrow>
     list_all P (snd (discardSession n s p))"
  unfolding discardSession_def by (intro all_andThen all_call all_runIf_call; simp)

lemma all_saveBrowserState:
  "P (Call n Mkdir) \<Longrightarrow> P (Call n (StorageState f)) \<Longrightarrow> P (Call n (WriteFile (fingerprintFileOf f))) \<Longrightarrow>
     list_all P (snd (saveBrowserState n s f))"
  unfolding saveBrowserState_def by (intro all_andThen all_call all_runIf_call; simp)

lemma all_finish:
  assumes "\<not> sc_noSaveState c \<Longrightarrow> P (Call n Mkdir) \<and> P (Call n (StorageState (sc_stateFile c)))
              \<and> P (Call n (WriteFile (fingerprintFileOf (sc_stateFile c))))"
    and "\<not> p \<and> \<not> sc_debug c \<Longrightarrow> P (Call n (CloseBrowser AtReturn))"
  shows "list_all P (snd (finish c n s p rs))"
proof -
  have "list_all P (snd (runIf (\<not> sc_noSaveState c) (saveBrowserState n s (sc_stateFile c))))"
    using assms(1) by (cases "sc_noSaveState c") (simp_all add: runIf_def all_saveBrowserState)
  then show ?thesis
    unfolding finish_def using assms(2)
    by (intro all_andThen all_runIf_call all_ret) simp_all
qed

lemma all_resultsPhase:
  assumes "\<And>sel. P (Call n (WaitSelector sel))" and "\<And>sel. P (Call n (EvalAll sel))"
    and "\<not> sc_noSaveState c \<Longrightarrow> P (Call n Mkdir) \<and> P (Call n (StorageState (sc_stateFile c)))
              \<and> P (Call n (WriteFile (fingerprintFileOf (sc_stateFile c))))"
    and "\<not> p \<and> \<not> sc_debug c \<Longrightarrow> P (Call n (CloseBrowser AtReturn))"
  shows "list_all P (snd (resultsPhase c n s p))"
  unfolding resultsPhase_def
  by (intro all_andThen all_waitResults all_extractResults all_finish assms)

lemma all_onError:
  "(\<not> p \<and> \<not> sc_debug c \<Longrightarrow> P (Call n (CloseBrowser AtCatch))) \<Longrightarrow>
     list_all P (snd (onError c n s p e))"
  unfolding onError_def by (intro all_andThen all_runIf_call all_ret; simp)

lemma all_setup1:
  assumes "P (Enter n h)"
    and "\<not> (sc_existingBrowser c \<and> \<not> f) \<Longrightarrow> P (Call n (LaunchBrowser h (sc_timeout c * 2)))"
    and "P (Call n (NewContext (sc_storageState c)))" and "P (Call n NewPage)"
  shows "list_all P (snd (setup1 c n h f))"
  unfolding setup1_steps using assms
  by (intro all_andThen all_runIf_call all_stateError all_call) simp_all

lemma all_setup2:
  assumes "P (Enter n h)"
    and "\<not> (sc_existingBrowser c \<and> \<not> f) \<Longrightarrow> P (Call n (LaunchBrowser h (sc_timeout c * 2)))"
    and "list_all P (snd (loadSavedState (sc_sessions c n) (sc_stateFile c)))"
    and "\<And>st. P (Call n (NewContext st))" and "P (Call n NewPage)"
    and "\<not> sc_noSaveState c \<Longrightarrow> P (Call n Mkdir) \<and> P (Call n (StorageState (sc_stateFile c)))
              \<and> P (Call n (WriteFile (fingerprintFileOf (sc_stateFile c))))"
  shows "list_all P (snd (setup2 c n h f))"
proof -
  have "list_all P (snd (runIf (\<not> sc_noSaveState c)
           (saveBrowserState n (sc_sessions c n) (sc_stateFile c))))"
    using assms(6) by (cases "sc_noSaveState c") (simp_all add: runIf_def all_saveBrowserState)
  then show ?thesis
    unfolding setup2_def Let_def using assms(1-5)
    by (intro all_andThen all_runIf_call all_setupContext2 all_call) simp_all
qed

section \<open>Detecting a challenge\<close>















subsection \<open>Where the wait for the challenge is called\<close>

definition noWait :: "event \<Rightarrow> bool" where
  "noWait e = (case e of Call n (WaitChallenge t) \<Rightarrow> False | _ \<Rightarrow> True)"

lemma noWait_simps [simp]:
  "noWait (Enter n h)" "noWait (Warn w)" "noWait (Exists f)" "noWait (Read f)"
  "noWait (Call n (LaunchBrowser h t))" "noWait (Call n (NewContext st))" "noWait (Call n NewPage)"
  "noWait (Call n Goto)" "noWait (Call n ClosePage)" "noWait (Call n CloseContext)"
  "noWait (Call n (CloseBrowser pl))" "\<not> noWait (Call n (WaitChallenge t))"
  "noWait (Call n (QuerySelector sel))" "noWait (Call n Click)" "noWait (Call n (TypeQuery q))"
  "noWait (Call n Pause)" "noWait (Call n PressEnter)" "noWait (Call n WaitLoad)"
  "noWait (Call n WaitLoadSolved)" "noWait (Call n WaitResultUrl)" "noWait (Call n (WaitSelector sel))"
  "noWait (Call n (EvalAll sel))" "noWait (Call n Mkdir)" "noWait (Call n (StorageState f))"
  "noWait (Call n (WriteFile f))"
  by (simp_all add: noWait_def)

lemma noWait_mem: "list_all noWait es \<Longrightarrow> Call m (WaitChallenge t) \<notin> set es"
  by (auto simp: list_all_iff)

lemma wait_free [simp]:
  "Call m (WaitChallenge t) \<notin> set (snd (findInput n s sels))"
  "Call m (WaitChallenge t) \<notin> set (snd (discardSession n s p))"
  "Call m (WaitChallenge t) \<notin> set (snd (resultsPhase c n s p))"
  "Call m (WaitChallenge t) \<notin> set (snd (onError c n s p e))"
  "Call m (WaitChallenge t) \<notin> set (snd (setup1 c n h f))"
  "Call m (WaitChallenge t) \<notin> set (snd (setup2 c n h f))"
  "Call m (WaitChallenge t) \<notin> set (snd (loadSavedState s g))"
proof -
  show "Call m (WaitChallenge t) \<notin> set (snd (findInput n s sels))"
    by (rule noWait_mem, rule all_findInput) simp
  show "Call m (WaitChallenge t) \<notin> set (snd (discardSession n s p))"
    by (rule noWait_mem, rule all_discardSession) simp_all
  show "Call m (WaitChallenge t) \<notin> set (snd (resultsPhase c n s p))"
    by (rule noWait_mem, rule all_resultsPhase) simp_all
  show "Call m (WaitChallenge t) \<notin> set (snd (onError c n s p e))"
    by (rule noWait_mem, rule all_onError) simp
  show "Call m (WaitChallenge t) \<notin> set (snd (setup1 c n h f))"
    by (rule noWait_mem, rule all_setup1) simp_all
  have l: "list_all noWait (snd (loadSavedState s' g'))" for s' g'
    by (rule all_loadSavedState) (simp_all add: cannotLoad_def)
  show "Call m (WaitChallenge t) \<notin> set (snd (setup2 c n h f))"
    by (rule noWait_mem, rule all_setup2) (simp_all add: l)
  show "Call m (WaitChallenge t) \<notin> set (snd (loadSavedState s g))"
    by (rule noWait_mem, rule l)
qed

lemma mem_andThen:
  "x \<in> set (snd (andThen m f))
   \<longleftrightarrow> x \<in> set (snd m) \<or> (\<exists>y. fst m = Returned y \<and> x \<in> set (snd (f y)))"
  by (cases "fst m") (simp_all add: andThen_def)





lemma wait_restart [simp]:
  "Call m (WaitChallenge t) \<notin> set (snd (andThen (discardSession n s p) (\<lambda>_. ret Restart)))"
  by (simp add: mem_andThen)

lemma wait_handler [simp]:
  "Call m (WaitChallenge t)
     \<notin> set (snd (andThen (onError c n s p e) (\<lambda>response. ret (Answer response))))"
  by (simp add: mem_andThen)
















section \<open>Escalation\<close>

text \<open>
  A session that shows a challenge on the home page and whose page cannot be closed.
\<close>

definition closeFails :: session where
  "closeFails = challenged\<lparr>fails := (\<lambda>oper. case oper of
       ClosePage \<Rightarrow> Some ''Error: page.close: Target closed''
     | _ \<Rightarrow> None)\<rparr>"

lemma fresh_closeFails [simp]: "\<not> existsSync (files closeFails) f"
  by (simp add: existsSync_def closeFails_def challenged_def okSession_def)








section \<open>Release of the browser\<close>

text \<open>
  Whether a trace holds a launch, or a close, of the browser of invocation \<open>n\<close>.
\<close>

definition launches :: "nat \<Rightarrow> event list \<Rightarrow> bool" where
  "launches n es =
     list_ex (\<lambda>e. case e of Call m (LaunchBrowser h t) \<Rightarrow> m = n | _ \<Rightarrow> False) es"

definition closes :: "nat \<Rightarrow> event list \<Rightarrow> bool" where
  "closes n es =
     list_ex (\<lambda>e. case e of Call m (CloseBrowser pl) \<Rightarrow> m = n | _ \<Rightarrow> False) es"

lemma launches_append [simp]: "launches n (xs @ ys) \<longleftrightarrow> launches n xs \<or> launches n ys"
  by (simp add: launches_def)

lemma closes_append [simp]: "closes n (xs @ ys) \<longleftrightarrow> closes n xs \<or> closes n ys"
  by (simp add: closes_def)

lemma launches_Nil [simp]: "\<not> launches n []"
  by (simp add: launches_def)

lemma closes_Nil [simp]: "\<not> closes n []"
  by (simp add: closes_def)

lemma launches_Cons [simp]:
  "launches n (Call m (LaunchBrowser h t) # es) \<longleftrightarrow> m = n \<or> launches n es"
  "launches n (Enter m h # es) \<longleftrightarrow> launches n es"
  by (simp_all add: launches_def)

lemma closes_Cons [simp]:
  "closes n (Call m (CloseBrowser pl) # es) \<longleftrightarrow> m = n \<or> closes n es"
  "closes n (Call m (LaunchBrowser h t) # es) \<longleftrightarrow> closes n es"
  "closes n (Enter m h # es) \<longleftrightarrow> closes n es"
  by (simp_all add: closes_def)

lemma inner_no_launch: "list_all (inner n b) es \<Longrightarrow> \<not> launches m es"
  by (induction es) (auto simp: launches_def inner_def split: event.splits op.splits)

lemma inner_closes: "list_all (inner n b) es \<Longrightarrow> closes m es \<Longrightarrow> m = n \<and> b"
  by (induction es) (auto simp: closes_def inner_def split: event.splits op.splits)

lemma inner_mono: "list_all (inner n b) es \<Longrightarrow> (b \<Longrightarrow> b') \<Longrightarrow> list_all (inner n b') es"
  by (induction es) (auto simp: inner_def split: event.splits op.splits)

lemma closable_finish: "list_all (inner n (\<not> p \<and> \<not> sc_debug c)) (snd (finish c n s p rs))"
  unfolding finish_def
  by (intro all_andThen all_runIf all_runIf_call all_ret inner_saveBrowserState; simp)

lemma closable_onError: "list_all (inner n (\<not> p \<and> \<not> sc_debug c)) (snd (onError c n s p e))"
  unfolding onError_def
  by (intro all_andThen all_runIf_call all_ret; simp)

lemma closable_resultsPhase:
  "list_all (inner n (\<not> p \<and> \<not> sc_debug c)) (snd (resultsPhase c n s p))"
  unfolding resultsPhase_def
  by (intro all_andThen inner_waitResults inner_extractResults closable_finish)

lemma closable_discard:
  "h \<Longrightarrow> list_all (inner n (\<not> p \<and> (h \<or> \<not> sc_debug c))) (snd (discardSession n s p))"
  by (rule inner_mono [OF inner_discardSession]) simp

lemma closable_results:
  "list_all (inner n (\<not> p \<and> (h \<or> \<not> sc_debug c))) (snd (resultsPhase c n s p))"
  by (rule inner_mono [OF closable_resultsPhase]) simp

lemma closable_submitPhase:
  "list_all (inner n (\<not> p \<and> (h \<or> \<not> sc_debug c))) (snd (submitPhase c n s h p))"
  unfolding submitPhase_def
  by (intro all_if all_andThen all_ret all_throw all_call all_waitChallenge inner_findInput
        closable_results closable_discard; simp)

lemma closable_tryBlock:
  "list_all (inner n (\<not> p \<and> (h \<or> \<not> sc_debug c))) (snd (tryBlock c n s h p))"
  unfolding tryBlock_def
  by (intro all_if all_andThen all_ret all_call all_waitChallenge closable_submitPhase
        closable_discard; simp)

lemma andThen_ReturnedE:
  "fst (andThen m f) = Returned y \<Longrightarrow>
     \<exists>x. fst m = Returned x \<and> fst (f x) = Returned y \<and> snd (andThen m f) = snd m @ snd (f x)"
  by (cases "fst m") (simp_all add: andThen_def)

lemma closes_andThen:
  assumes "fst (andThen m f) = Returned y"
    and "\<And>x. fst (f x) = Returned y \<Longrightarrow> closes n (snd (f x))"
  shows "closes n (snd (andThen m f))"
  using andThen_ReturnedE [OF assms(1)] assms(2) by auto

lemma closes_catch:
  assumes "fst (catch m h) = Returned y"
    and "fst m = Returned y \<Longrightarrow> closes n (snd m)"
    and "\<And>e. fst (h e) = Returned y \<Longrightarrow> closes n (snd (h e))"
  shows "closes n (snd (catch m h))"
  using assms by (cases "fst m") (auto simp: catch_def)

lemma closes_call: "closes n (snd (call n s (CloseBrowser pl)))"
  by (simp add: call_def)

lemma closes_discardSession:
  "fst (discardSession n s p) = Returned u \<Longrightarrow> \<not> p \<Longrightarrow> closes n (snd (discardSession n s p))"
  unfolding discardSession_def
  by (erule closes_andThen, erule closes_andThen) (simp add: runIf_def closes_call)

lemma closes_finish:
  "fst (finish c n s p rs) = Returned v \<Longrightarrow> \<not> p \<Longrightarrow> \<not> sc_debug c \<Longrightarrow>
     closes n (snd (finish c n s p rs))"
  unfolding finish_def
  by (erule closes_andThen) (simp add: runIf_def snd_andThen closes_call)

lemma closes_onError:
  "fst (onError c n s p e) = Returned v \<Longrightarrow> \<not> p \<Longrightarrow> \<not> sc_debug c \<Longrightarrow>
     closes n (snd (onError c n s p e))"
  unfolding onError_def
  by (simp add: runIf_def snd_andThen closes_call)

lemma closes_resultsPhase:
  "fst (resultsPhase c n s p) = Returned v \<Longrightarrow> \<not> p \<Longrightarrow> \<not> sc_debug c \<Longrightarrow>
     closes n (snd (resultsPhase c n s p))"
  unfolding resultsPhase_def
  by (erule closes_andThen, erule closes_andThen) (rule closes_finish)

lemma closes_restart:
  "fst (andThen (discardSession n s p) (\<lambda>_. ret Restart)) = Returned v \<Longrightarrow> \<not> p \<Longrightarrow>
     closes n (snd (andThen (discardSession n s p) (\<lambda>_. ret Restart)))"
  by (auto simp: snd_andThen andThen_Returned dest: closes_discardSession)

lemma closes_afterEnter:
  assumes "fst (if isBlocked s (search_url s) then
             if h then andThen (discardSession n s p) (\<lambda>_. ret Restart)
             else andThen (waitChallenge n t d) (\<lambda>_.
                  andThen (call n s WaitLoadSolved) (\<lambda>_. resultsPhase c n s p))
           else resultsPhase c n s p) = Returned v"
    and "\<not> p" and "\<not> sc_debug c"
  shows "closes n (snd (if isBlocked s (search_url s) then
             if h then andThen (discardSession n s p) (\<lambda>_. ret Restart)
             else andThen (waitChallenge n t d) (\<lambda>_.
                  andThen (call n s WaitLoadSolved) (\<lambda>_. resultsPhase c n s p))
           else resultsPhase c n s p))"
proof (cases "isBlocked s (search_url s)")
  case True
  show ?thesis
  proof (cases h)
    case True
    with \<open>isBlocked s (search_url s)\<close> assms show ?thesis by (simp add: closes_restart)
  next
    case False
    with \<open>isBlocked s (search_url s)\<close> assms(1)
    have "fst (andThen (waitChallenge n t d) (\<lambda>_.
                  andThen (call n s WaitLoadSolved) (\<lambda>_. resultsPhase c n s p))) = Returned v"
      by simp
    then have "closes n (snd (andThen (waitChallenge n t d) (\<lambda>_.
                  andThen (call n s WaitLoadSolved) (\<lambda>_. resultsPhase c n s p))))"
      by (rule closes_andThen) (erule closes_andThen, rule closes_resultsPhase [OF _ assms(2,3)])
    with False \<open>isBlocked s (search_url s)\<close> show ?thesis by simp
  qed
next
  case False
  with assms show ?thesis by (simp add: closes_resultsPhase)
qed

lemma closes_submitPhase:
  assumes "fst (submitPhase c n s h p) = Returned v" and "\<not> p" and "\<not> sc_debug c"
  shows "closes n (snd (submitPhase c n s h p))"
  using assms(1) unfolding submitPhase_def
proof (rule closes_andThen)
  fix x
  assume a: "fst (if \<not> x then throw ''Error: Could not find search box''
         else andThen (call n s Click) (\<lambda>_.
              andThen (call n s (TypeQuery (sc_query c))) (\<lambda>_.
              andThen (call n s Pause) (\<lambda>_.
              andThen (call n s PressEnter) (\<lambda>_.
              andThen (call n s WaitLoad) (\<lambda>_.
                if isBlocked s (search_url s) then
                  if h then andThen (discardSession n s p) (\<lambda>_. ret Restart)
                  else andThen (waitChallenge n (sc_timeout c * 2) (solve2 s)) (\<lambda>_.
                       andThen (call n s WaitLoadSolved) (\<lambda>_. resultsPhase c n s p))
                else resultsPhase c n s p)))))) = Returned v"
  then have x: x by (cases x) simp_all
  with a have "fst (andThen (call n s Click) (\<lambda>_.
              andThen (call n s (TypeQuery (sc_query c))) (\<lambda>_.
              andThen (call n s Pause) (\<lambda>_.
              andThen (call n s PressEnter) (\<lambda>_.
              andThen (call n s WaitLoad) (\<lambda>_.
                if isBlocked s (search_url s) then
                  if h then andThen (discardSession n s p) (\<lambda>_. ret Restart)
                  else andThen (waitChallenge n (sc_timeout c * 2) (solve2 s)) (\<lambda>_.
                       andThen (call n s WaitLoadSolved) (\<lambda>_. resultsPhase c n s p))
                else resultsPhase c n s p)))))) = Returned v"
    by simp
  then have "closes n (snd (andThen (call n s Click) (\<lambda>_.
              andThen (call n s (TypeQuery (sc_query c))) (\<lambda>_.
              andThen (call n s Pause) (\<lambda>_.
              andThen (call n s PressEnter) (\<lambda>_.
              andThen (call n s WaitLoad) (\<lambda>_.
                if isBlocked s (search_url s) then
                  if h then andThen (discardSession n s p) (\<lambda>_. ret Restart)
                  else andThen (waitChallenge n (sc_timeout c * 2) (solve2 s)) (\<lambda>_.
                       andThen (call n s WaitLoadSolved) (\<lambda>_. resultsPhase c n s p))
                else resultsPhase c n s p)))))))"
    by (rule closes_andThen, elim closes_andThen) (rule closes_afterEnter [OF _ assms(2,3)])
  with x show "closes n (snd (if \<not> x then throw ''Error: Could not find search box''
         else andThen (call n s Click) (\<lambda>_.
              andThen (call n s (TypeQuery (sc_query c))) (\<lambda>_.
              andThen (call n s Pause) (\<lambda>_.
              andThen (call n s PressEnter) (\<lambda>_.
              andThen (call n s WaitLoad) (\<lambda>_.
                if isBlocked s (search_url s) then
                  if h then andThen (discardSession n s p) (\<lambda>_. ret Restart)
                  else andThen (waitChallenge n (sc_timeout c * 2) (solve2 s)) (\<lambda>_.
                       andThen (call n s WaitLoadSolved) (\<lambda>_. resultsPhase c n s p))
                else resultsPhase c n s p)))))))"
    by simp
qed

lemma closes_tryBlock:
  assumes "fst (tryBlock c n s h p) = Returned v" and "\<not> p" and "\<not> sc_debug c"
  shows "closes n (snd (tryBlock c n s h p))"
  using assms(1) unfolding tryBlock_def
proof (rule closes_andThen)
  fix x :: unit
  assume a: "fst (if isBlocked s (home_url s) then
         if h then andThen (discardSession n s p) (\<lambda>_. ret Restart)
         else andThen (waitChallenge n (sc_timeout c * 2) (solve1 s)) (\<lambda>_. submitPhase c n s h p)
       else submitPhase c n s h p) = Returned v"
  show "closes n (snd (if isBlocked s (home_url s) then
         if h then andThen (discardSession n s p) (\<lambda>_. ret Restart)
         else andThen (waitChallenge n (sc_timeout c * 2) (solve1 s)) (\<lambda>_. submitPhase c n s h p)
       else submitPhase c n s h p))"
  proof (cases "isBlocked s (home_url s)")
    case True
    show ?thesis
    proof (cases h)
      case True
      with \<open>isBlocked s (home_url s)\<close> a assms(2) show ?thesis by (simp add: closes_restart)
    next
      case False
      with \<open>isBlocked s (home_url s)\<close> a
      have "fst (andThen (waitChallenge n (sc_timeout c * 2) (solve1 s)) (\<lambda>_. submitPhase c n s h p))
            = Returned v" by simp
      then have "closes n (snd (andThen (waitChallenge n (sc_timeout c * 2) (solve1 s))
                                  (\<lambda>_. submitPhase c n s h p)))"
        by (rule closes_andThen) (rule closes_submitPhase [OF _ assms(2,3)])
      with False \<open>isBlocked s (home_url s)\<close> show ?thesis by simp
    qed
  next
    case False
    with a assms(2,3) show ?thesis by (simp add: closes_submitPhase)
  qed
qed


lemma attempt_trace:
  "\<exists>rest. snd (attempt c n h f)
      = Enter n h # (if sc_existingBrowser c \<and> \<not> f then []
                     else [Call n (LaunchBrowser h (sc_timeout c * 2))]) @ rest
     \<and> list_all (inner n (\<not> (sc_existingBrowser c \<and> \<not> f) \<and> (h \<or> \<not> sc_debug c))) rest"
  by (rule attempt_shape [OF _ _ closable_tryBlock inner_mono [OF closable_onError]]) simp_all

lemma attempt_launches:
  "launches m (snd (attempt c n h f)) \<longleftrightarrow> m = n \<and> \<not> (sc_existingBrowser c \<and> \<not> f)"
  using attempt_trace [of c n h f] by (auto dest: inner_no_launch split: if_splits)

lemma attempt_closes_only:
  "closes m (snd (attempt c n h f)) \<Longrightarrow>
     m = n \<and> \<not> (sc_existingBrowser c \<and> \<not> f) \<and> (h \<or> \<not> sc_debug c)"
  using attempt_trace [of c n h f] by (auto dest: inner_closes split: if_splits)

lemma attempt_closes:
  assumes "fst (attempt c n h f) = Returned v"
    and "\<not> (sc_existingBrowser c \<and> \<not> f)" and "\<not> sc_debug c"
  shows "closes n (snd (attempt c n h f))"
proof -
  define p where "p = (sc_existingBrowser c \<and> \<not> f)"
  define s where "s = sc_sessions c n"
  have p: "\<not> p" using assms(2) by (simp add: p_def)
  have h: "closes n (snd (andThen (onError c n s p e) (\<lambda>response. ret (Answer response))))"
    if "fst (andThen (onError c n s p e) (\<lambda>response. ret (Answer response))) = Returned v" for e
    using that closes_onError [of c n s p e _, OF _ p assms(3)]
    by (auto simp: snd_andThen andThen_Returned)
  have "fst (andThen (setup1 c n h f) (\<lambda>_.
             catch (tryBlock c n s h p)
               (\<lambda>error. andThen (onError c n s p error) (\<lambda>response. ret (Answer response))))) = Returned v"
    using assms(1) by (simp add: attempt_def Let_def p_def s_def)
  then have "closes n (snd (andThen (setup1 c n h f) (\<lambda>_.
             catch (tryBlock c n s h p)
               (\<lambda>error. andThen (onError c n s p error) (\<lambda>response. ret (Answer response))))))"
    apply (rule closes_andThen)
    apply (erule closes_catch)
     apply (erule closes_tryBlock [OF _ p assms(3)])
    apply (erule h)
    done
  then show ?thesis by (simp add: attempt_def Let_def p_def s_def)
qed

lemma performSearch_Returned_attempt:
  "fst (performSearch c n h f) = Returned r \<Longrightarrow> \<exists>v. fst (attempt c n h f) = Returned v"
  by (simp add: performSearch.simps [of c n] Let_def split: outcome.splits)

lemma performSearch_Returned_rec:
  "fst (performSearch c n h f) = Returned r \<Longrightarrow> fst (attempt c n h f) = Returned Restart \<Longrightarrow>
     fst (performSearch c (Suc n) False (sc_existingBrowser c \<and> \<not> f)) = Returned r"
  by (simp add: performSearch.simps [of c n] Let_def)

lemma performSearch_closes_launched:
  "fst (performSearch c n h f) = Returned r \<Longrightarrow> \<not> sc_debug c \<Longrightarrow>
     launches m (snd (performSearch c n h f)) \<Longrightarrow> closes m (snd (performSearch c n h f))"
proof (induction c n h f rule: performSearch.induct)
  case (1 c n headless forceNewBrowser)
  from performSearch_Returned_attempt [OF "1.prems"(1)] obtain v where
    v: "fst (attempt c n headless forceNewBrowser) = Returned v" ..
  show ?case
  proof (cases "launches m (snd (attempt c n headless forceNewBrowser))")
    case True
    then have "m = n" "\<not> (sc_existingBrowser c \<and> \<not> forceNewBrowser)"
      by (simp_all add: attempt_launches)
    with attempt_closes [OF v _ "1.prems"(2)] show ?thesis
      by (simp add: performSearch_log [of c n])
  next
    case False
    with "1.prems"(3) have r: "fst (attempt c n headless forceNewBrowser) = Returned Restart"
      and l: "launches m (snd (performSearch c (Suc n) False (sc_existingBrowser c \<and> \<not> forceNewBrowser)))"
      by (simp_all add: performSearch_log [of c n] split: if_splits)
    from "1.IH" [OF refl r refl performSearch_Returned_rec [OF "1.prems"(1) r] "1.prems"(2) l] r
    show ?thesis by (simp add: performSearch_log [of c n])
  qed
qed

lemma performSearch_closes_own:
  "closes m (snd (performSearch c n h f)) \<Longrightarrow> launches m (snd (performSearch c n h f)) \<and> n \<le> m"
proof (induction c n h f rule: performSearch.induct)
  case (1 c n headless forceNewBrowser)
  show ?case
  proof (cases "closes m (snd (attempt c n headless forceNewBrowser))")
    case True
    from attempt_closes_only [OF this] show ?thesis
      by (simp add: performSearch_log [of c n] attempt_launches)
  next
    case False
    with "1.prems" have r: "fst (attempt c n headless forceNewBrowser) = Returned Restart"
      and l: "closes m (snd (performSearch c (Suc n) False (sc_existingBrowser c \<and> \<not> forceNewBrowser)))"
      by (simp_all add: performSearch_log [of c n] split: if_splits)
    from "1.IH" [OF refl r refl l] r show ?thesis
      by (simp add: performSearch_log [of c n])
  qed
qed

lemma performSearch_debug_closes_nothing:
  assumes "sc_debug c"
  shows "\<not> closes m (snd (performSearch c n False f))"
proof
  assume a: "closes m (snd (performSearch c n False f))"
  have "fst (attempt c n False f) \<noteq> Returned Restart"
    using attempt_Restart by blast
  with a have "closes m (snd (attempt c n False f))"
    by (simp add: performSearch_log [of c n])
  from attempt_closes_only [OF this] assms show False by simp
qed


lemma loadSavedState_no_browser:
  "\<not> launches m (snd (loadSavedState s f))" "\<not> closes m (snd (loadSavedState s f))"
  by (simp_all add: loadSavedState_def Let_def cannotLoad_def launches_def closes_def
        split: option.splits fentry.splits)

lemma launches_quiet_head [simp]:
  "launches n (Exists f # es) \<longleftrightarrow> launches n es" "closes n (Exists f # es) \<longleftrightarrow> closes n es"
  by (simp_all add: launches_def closes_def)

text \<open>
  C6, as stated, has the session released and a browser of the query's own closed on
  every exit path. In debug mode a successful query launches its own browser and ends
  without closing the page, the context or the browser.
\<close>

theorem debug_leaves_browser_open:
  "googleSearch ''x'' (defaults\<lparr>debug := Some True\<rparr>) False (\<lambda>_. threeHits)
   = (Returned \<lparr>query = ''x'',
        results = [item ''A'' ''http://a'', item ''B'' ''http://b'', item ''C'' ''http://c'']\<rparr>,
      [Exists ''./browser-state.json'',
       Enter 0 False, Call 0 (LaunchBrowser False 120000), Call 0 (NewContext None), Call 0 NewPage,
       Call 0 Goto, Call 0 (QuerySelector ''textarea[name='q']''),
       Call 0 (QuerySelector ''input[name='q']''), Call 0 Click, Call 0 (TypeQuery ''x''),
       Call 0 Pause, Call 0 PressEnter, Call 0 WaitLoad, Call 0 (WaitSelector ''#search''),
       Call 0 (EvalAll ''#search .g''), Call 0 (StorageState ''./browser-state.json''),
       Call 0 (WriteFile ''./browser-state-fingerprint.json'')])"
proof -
  have "attempt (scopeOf ''x'' (defaults\<lparr>debug := Some True\<rparr>) False (\<lambda>_. threeHits))
                   0 False False
        = (Returned (Answer \<lparr>query = ''x'',
             results = [item ''A'' ''http://a'', item ''B'' ''http://b'', item ''C'' ''http://c'']\<rparr>),
           [Enter 0 False, Call 0 (LaunchBrowser False 120000), Call 0 (NewContext None), Call 0 NewPage,
            Call 0 Goto, Call 0 (QuerySelector ''textarea[name='q']''),
            Call 0 (QuerySelector ''input[name='q']''), Call 0 Click, Call 0 (TypeQuery ''x''),
            Call 0 Pause, Call 0 PressEnter, Call 0 WaitLoad, Call 0 (WaitSelector ''#search''),
            Call 0 (EvalAll ''#search .g''), Call 0 (StorageState ''./browser-state.json''),
            Call 0 (WriteFile ''./browser-state-fingerprint.json'')])"
    by (simp add: run_defs defaults_def threeHits_def okSession_def hit_def item_def
          fingerprintFileOf_def)
  from performSearch_eval(1) [OF this] show ?thesis
    by (simp add: googleSearch_fresh)
qed

text \<open>
  C6 (amended): on every exit path of a query execution that returns a response,
  success or failure, with debug off, every browser process the query launched has
  been closed. On every path a query closes only browsers it launched itself, so a
  browser supplied by the caller is never closed by the query; and with debug on the
  query closes no browser at all.
\<close>

theorem own_browser_closed:
  "(fst (googleSearch q options existing env) = Returned response \<and> debug options \<noteq> Some True
      \<longrightarrow> (\<forall>n. launches n (snd (googleSearch q options existing env))
                 \<longrightarrow> closes n (snd (googleSearch q options existing env))))
   \<and> (\<forall>n. closes n (snd (googleSearch q options existing env))
           \<longrightarrow> launches n (snd (googleSearch q options existing env)))
   \<and> (existing \<longrightarrow> \<not> closes 0 (snd (googleSearch q options existing env)))
   \<and> (debug options = Some True
        \<longrightarrow> (\<forall>n. \<not> closes n (snd (googleSearch q options existing env))))"
proof -
  define c where "c = scopeLoaded q options existing env"
  define L where "L = snd (performSearch c 0 (debug options \<noteq> Some True) False)"
  have f: "fst (googleSearch q options existing env)
           = fst (performSearch c 0 (debug options \<noteq> Some True) False)"
    unfolding c_def by (rule googleSearch_fst)
  have l: "launches n (snd (googleSearch q options existing env)) = launches n L"
    and k: "closes n (snd (googleSearch q options existing env)) = closes n L" for n
    by (simp_all add: googleSearch_log L_def c_def loadSavedState_no_browser)
  have d: "sc_debug c = (debug options = Some True)" and e: "sc_existingBrowser c = existing"
    by (simp_all add: c_def)
  have 1: "launches n L \<longrightarrow> closes n L"
    if "fst (googleSearch q options existing env) = Returned response" "debug options \<noteq> Some True" for n
    using performSearch_closes_launched [of c 0 "debug options \<noteq> Some True" False response n] that
    by (simp add: f d L_def)
  have 2: "closes n L \<longrightarrow> launches n L" for n
    using performSearch_closes_own [of n c 0] by (simp add: L_def)
  have 3: "\<not> closes 0 L" if existing
  proof
    assume a: "closes 0 L"
    show False
    proof (cases "closes 0 (snd (attempt c 0 (debug options \<noteq> Some True) False))")
      case True
      from attempt_closes_only [OF this] that e show False by simp
    next
      case False
      with a have "closes 0 (snd (performSearch c (Suc 0) False (sc_existingBrowser c \<and> \<not> False)))"
        by (simp add: L_def performSearch_log [of c 0] split: if_splits)
      from performSearch_closes_own [OF this] show False by simp
    qed
  qed
  have 4: "\<not> closes n L" if "debug options = Some True" for n
    using performSearch_debug_closes_nothing [of c n 0 False] that by (simp add: L_def d)
  show ?thesis unfolding l k using 1 2 3 4 by blast
qed

theorem own_browser_closed_witness:
  "fst (googleSearch ''x'' defaults False (\<lambda>_. threeHits))
     = Returned \<lparr>query = ''x'',
         results = [item ''A'' ''http://a'', item ''B'' ''http://b'', item ''C'' ''http://c'']\<rparr>
   \<and> debug defaults \<noteq> Some True
   \<and> launches 0 (snd (googleSearch ''x'' defaults False (\<lambda>_. threeHits)))
   \<and> closes 0 (snd (googleSearch ''x'' defaults False (\<lambda>_. threeHits)))
   \<and> \<not> closes 0 (snd (googleSearch ''x'' defaults True (\<lambda>_. threeHits)))
   \<and> \<not> closes 0 (snd (googleSearch ''x'' (defaults\<lparr>debug := Some True\<rparr>) False (\<lambda>_. threeHits)))"
proof -
  have d: "debug defaults \<noteq> Some True" "debug (defaults\<lparr>debug := Some True\<rparr>) = Some True"
    by (simp_all add: defaults_def)
  have l: "launches 0 (snd (googleSearch ''x'' defaults False (\<lambda>_. threeHits)))"
    by (simp add: threeHits_run)
  show ?thesis
    using own_browser_closed [of "''x''" defaults False "\<lambda>_. threeHits"
            "\<lparr>query = ''x'',
              results = [item ''A'' ''http://a'', item ''B'' ''http://b'', item ''C'' ''http://c'']\<rparr>"]
          own_browser_closed [of "''x''" defaults True "\<lambda>_. threeHits"]
          own_browser_closed [of "''x''" "defaults\<lparr>debug := Some True\<rparr>" False "\<lambda>_. threeHits"]
          d l
    by (simp add: threeHits_run)
qed

end
